theory Spec2Isabelle
  imports Complex_Main "HOL-Library.Sublist" "HOL-Library.List_Lexorder" "HOL-Library.Char_ord"
begin

section \<open>Python values the pipeline handles\<close>

text \<open>
  The ingestion pipeline is Python. Its unbounded integers are \<^typ>\<open>int\<close>, its floats
  are modelled by \<^typ>\<open>real\<close> (the rate limiter only subtracts clock readings, compares
  them and raises the backoff base to an integer power), its strings are \<^typ>\<open>string\<close>
  and its exceptions are values: a function that can raise returns a sum whose left
  injection is the exception.
\<close>

subsection \<open>Exceptions (core/exceptions.py, and the two builtins a float power raises)\<close>

datatype exn_class =
    Exception
  | KasperoException
  | ETLException
  | ExtractionError
  | TransformationError
  | LoadError
  | SchemaValidationError
  | SchemaDriftError
  | RateLimitError
  | CheckpointError
  | APIError
  | AuthenticationError
  | DatabaseError
  | OverflowError
  | ZeroDivisionError

text \<open>An exception object: its class and \<open>str(e)\<close>, the message it was built with.\<close>

datatype exn = Exn (exn_cls: exn_class) (exn_str: string)

text \<open>\<open>isinstance(e, ETLException)\<close>, from the class hierarchy of core/exceptions.py.\<close>

fun is_ETLException :: "exn_class \<Rightarrow> bool" where
  "is_ETLException ETLException = True"
| "is_ETLException ExtractionError = True"
| "is_ETLException TransformationError = True"
| "is_ETLException LoadError = True"
| "is_ETLException SchemaValidationError = True"
| "is_ETLException SchemaDriftError = True"
| "is_ETLException RateLimitError = True"
| "is_ETLException CheckpointError = True"
| "is_ETLException _ = False"

subsection \<open>Rendering integers: \<open>str(n)\<close> and \<open>f"{n}"\<close>\<close>

definition digit_char :: "nat \<Rightarrow> char" where
  "digit_char d = ''0123456789'' ! d"

fun str_nat :: "nat \<Rightarrow> string" where
  "str_nat n = (if n < 10 then [digit_char n] else str_nat (n div 10) @ [digit_char (n mod 10)])"

declare str_nat.simps [simp del]

definition str_int :: "int \<Rightarrow> string" where
  "str_int i = (if i < 0 then CHR ''-'' # str_nat (nat (- i)) else str_nat (nat i))"

section \<open>Rate limiter (services/rate\_limiter.py)\<close>

text \<open>
  \<open>RateLimiterState\<close> is the dataclass of the source; \<open>RateLimiter\<close> holds the three
  settings and the dictionary of per-key states. The source mutates the state object
  stored in the dictionary; the model writes the changed state back under its key.

  Every \<open>time.time()\<close> of the source is an argument of the model: a call that reads the
  clock twice takes two readings, so nothing is assumed about how long a call takes.
\<close>

record RateLimiterState =
  requests_made :: int
  window_start :: real
  current_backoff :: real
  retry_count :: int
  last_request_time :: real

record RateLimiter =
  requests_per_minute :: int
  max_retries :: int
  backoff_base :: real
  states :: "string \<rightharpoonup> RateLimiterState"

text \<open>The defaults of core/config.py.\<close>

definition RATE_LIMIT_REQUESTS_PER_MINUTE :: int where
  "RATE_LIMIT_REQUESTS_PER_MINUTE = 60"

definition RATE_LIMIT_RETRY_MAX :: int where
  "RATE_LIMIT_RETRY_MAX = 5"

definition RATE_LIMIT_BACKOFF_BASE :: real where
  "RATE_LIMIT_BACKOFF_BASE = 2"

text \<open>
  \<open>__init__\<close>: each argument defaults to \<open>None\<close>, and \<open>x or default\<close> also replaces a
  zero by the default.
\<close>

definition RateLimiter_init :: "int option \<Rightarrow> int option \<Rightarrow> real option \<Rightarrow> RateLimiter" where
  "RateLimiter_init rpm mr bb =
     \<lparr> requests_per_minute =
         (case rpm of None \<Rightarrow> RATE_LIMIT_REQUESTS_PER_MINUTE
          | Some n \<Rightarrow> if n = 0 then RATE_LIMIT_REQUESTS_PER_MINUTE else n),
       max_retries =
         (case mr of None \<Rightarrow> RATE_LIMIT_RETRY_MAX
          | Some n \<Rightarrow> if n = 0 then RATE_LIMIT_RETRY_MAX else n),
       backoff_base =
         (case bb of None \<Rightarrow> RATE_LIMIT_BACKOFF_BASE
          | Some b \<Rightarrow> if b = 0 then RATE_LIMIT_BACKOFF_BASE else b),
       states = Map.empty \<rparr>"

text \<open>
  \<open>RateLimiterState()\<close>: the default factory of \<open>window_start\<close> reads the clock
  (\<open>t_new\<close>).
\<close>

definition new_state :: "real \<Rightarrow> RateLimiterState" where
  "new_state t_new =
     \<lparr> requests_made = 0, window_start = t_new, current_backoff = 0,
       retry_count = 0, last_request_time = 0 \<rparr>"

definition get_state :: "RateLimiter \<Rightarrow> string \<Rightarrow> real \<Rightarrow> RateLimiterState \<times> RateLimiter" where
  "get_state rl source_key t_new =
     (case states rl source_key of
        Some s \<Rightarrow> (s, rl)
      | None \<Rightarrow> (new_state t_new, rl\<lparr>states := (states rl)(source_key \<mapsto> new_state t_new)\<rparr>))"

definition reset_window_if_needed :: "RateLimiterState \<Rightarrow> real \<Rightarrow> RateLimiterState" where
  "reset_window_if_needed s current_time =
     (if current_time - window_start s \<ge> 60
      then s\<lparr>requests_made := 0, window_start := current_time,
              retry_count := 0, current_backoff := 0\<rparr>
      else s)"

text \<open>
  \<open>check_rate_limit\<close> reads the clock in \<open>_reset_window_if_needed\<close> (\<open>t_reset\<close>) and
  again when it computes the wait (\<open>t_wait\<close>).
\<close>

definition check_rate_limit ::
  "RateLimiter \<Rightarrow> string \<Rightarrow> real \<Rightarrow> real \<Rightarrow> real \<Rightarrow> real \<times> RateLimiter" where
  "check_rate_limit rl source_key t_new t_reset t_wait =
     (let (s, rl1) = get_state rl source_key t_new;
          s1 = reset_window_if_needed s t_reset;
          rl2 = rl1\<lparr>states := (states rl1)(source_key \<mapsto> s1)\<rparr>
      in if requests_made s1 \<ge> requests_per_minute rl
         then (max 0 (60 - (t_wait - window_start s1)), rl2)
         else (0, rl2))"

definition record_request :: "RateLimiter \<Rightarrow> string \<Rightarrow> real \<Rightarrow> real \<Rightarrow> RateLimiter" where
  "record_request rl source_key t_new t_req =
     (let (s, rl1) = get_state rl source_key t_new;
          s1 = s\<lparr>requests_made := requests_made s + 1, last_request_time := t_req\<rparr>
      in rl1\<lparr>states := (states rl1)(source_key \<mapsto> s1)\<rparr>)"

definition record_success :: "RateLimiter \<Rightarrow> string \<Rightarrow> real \<Rightarrow> RateLimiter" where
  "record_success rl source_key t_new =
     (let (s, rl1) = get_state rl source_key t_new;
          s1 = s\<lparr>retry_count := 0, current_backoff := 0\<rparr>
      in rl1\<lparr>states := (states rl1)(source_key \<mapsto> s1)\<rparr>)"

text \<open>
  \<open>x ** n\<close> for a float \<open>x\<close> and an integer \<open>n\<close>. The largest finite double is
  \<open>DBL_MAX\<close>; a result of magnitude \<open>2^1024 - 2^970\<close> or more rounds to infinity, and
  Python then raises \<open>OverflowError\<close> (the message is that of the C library for
  \<open>ERANGE\<close>). Zero to a negative power raises \<open>ZeroDivisionError\<close>. An underflow is not
  an error. A real above \<open>DBL_MAX\<close> stands for no finite double; like Python for an
  infinite base, the model raises nothing for it. Where the source rounds the power
  to the nearest double the model keeps the exact power: the two agree when the exact
  power is a double, as every power of 2.0 below \<open>2^1024\<close> is.
\<close>

definition DBL_MAX :: real where
  "DBL_MAX = 2 ^ 1024 - 2 ^ 971"

definition float_pow :: "real \<Rightarrow> int \<Rightarrow> exn + real" where
  "float_pow x n =
     (if x = 0 \<and> n < 0
      then Inl (Exn ZeroDivisionError ''0.0 cannot be raised to a negative power'')
      else if \<bar>x\<bar> \<le> DBL_MAX \<and> 2 ^ 1024 - 2 ^ 970 \<le> \<bar>x powi n\<bar>
      then Inl (Exn OverflowError (''(34, '' @ [CHR 0x27] @ ''Numerical result out of range''
                                    @ [CHR 0x27] @ '')''))
      else Inr (x powi n))"

text \<open>
  \<open>record_failure\<close>: the counter is incremented before the test, and stays incremented
  when the call raises, be it the \<open>RateLimitError\<close> or the exception of
  \<open>backoff_base ** retry_count\<close>, a float raised to an integer; in both cases
  \<open>current_backoff\<close> keeps its value.
\<close>

definition record_failure ::
  "RateLimiter \<Rightarrow> string \<Rightarrow> real \<Rightarrow> (exn + real) \<times> RateLimiter" where
  "record_failure rl source_key t_new =
     (let (s, rl1) = get_state rl source_key t_new;
          s1 = s\<lparr>retry_count := retry_count s + 1\<rparr>
      in if retry_count s1 > max_retries rl
         then (Inl (Exn RateLimitError
                 (''Max retries ('' @ str_int (max_retries rl) @ '') exceeded for '' @ source_key)),
               rl1\<lparr>states := (states rl1)(source_key \<mapsto> s1)\<rparr>)
         else (case float_pow (backoff_base rl) (retry_count s1) of
                 Inl e \<Rightarrow> (Inl e, rl1\<lparr>states := (states rl1)(source_key \<mapsto> s1)\<rparr>)
               | Inr backoff \<Rightarrow>
                   (let s2 = s1\<lparr>current_backoff := backoff\<rparr>
                    in (Inr (current_backoff s2),
                        rl1\<lparr>states := (states rl1)(source_key \<mapsto> s2)\<rparr>))))"

text \<open>
  \<open>wait_if_needed\<close> sleeps for the wait when it is positive; the model returns the
  duration slept (\<open>None\<close>: no sleep).
\<close>

definition wait_if_needed ::
  "RateLimiter \<Rightarrow> string \<Rightarrow> real \<Rightarrow> real \<Rightarrow> real \<Rightarrow> real option \<times> RateLimiter" where
  "wait_if_needed rl source_key t_new t_reset t_wait =
     (let (wait_time, rl1) = check_rate_limit rl source_key t_new t_reset t_wait
      in (if wait_time > 0 then Some wait_time else None, rl1))"

subsection \<open>Calling patterns\<close>

text \<open>
  \<open>record_failures\<close> calls \<open>record_failure\<close> once per clock reading of the list, one call
  after the other on the same limiter, and collects what each call returned or raised
  (the loop of \<open>test_backoff_increases_exponentially\<close>, continued past the exception).
\<close>

fun record_failures ::
  "RateLimiter \<Rightarrow> string \<Rightarrow> real list \<Rightarrow> (exn + real) list \<times> RateLimiter" where
  "record_failures rl source_key [] = ([], rl)"
| "record_failures rl source_key (t # ts) =
     (let (r, rl1) = record_failure rl source_key t;
          (rs, rl2) = record_failures rl1 source_key ts
      in (r # rs, rl2))"

text \<open>
  The clock readings of one round of admission: the reading of the state's default
  factory (used only when the key is new), the two readings of \<open>check_rate_limit\<close> and
  the reading of \<open>record_request\<close>.
\<close>

record clock_readings =
  at_new :: real
  at_reset :: real
  at_wait :: real
  at_request :: real

text \<open>
  \<open>admit_requests\<close> is the loop of \<open>test_basic_rate_limiting\<close>: ask
  \<open>check_rate_limit\<close>, and record the request when it was admitted (wait 0).
\<close>

fun admit_requests ::
  "RateLimiter \<Rightarrow> string \<Rightarrow> clock_readings list \<Rightarrow> real list \<times> RateLimiter" where
  "admit_requests rl source_key [] = ([], rl)"
| "admit_requests rl source_key (c # cs) =
     (let (wait, rl1) = check_rate_limit rl source_key (at_new c) (at_reset c) (at_wait c);
          rl2 = (if wait = 0
                 then record_request rl1 source_key (at_request c) (at_request c)
                 else rl1);
          (waits, rl3) = admit_requests rl2 source_key cs
      in (wait # waits, rl3))"

text \<open>Concrete limiters and readings for the examples.\<close>

definition four_retries :: RateLimiter where
  "four_retries = RateLimiter_init None (Some 4) (Some 2)"

definition two_thousand_retries :: RateLimiter where
  "two_thousand_retries = RateLimiter_init None (Some 2000) (Some 2)"

definition two_per_minute :: RateLimiter where
  "two_per_minute = RateLimiter_init (Some 2) None None"

definition at_time :: "real \<Rightarrow> clock_readings" where
  "at_time t = \<lparr> at_new = t, at_reset = t, at_wait = t, at_request = t \<rparr>"

definition failing_limiter :: RateLimiter where
  "failing_limiter =
     (RateLimiter_init None None (Some 3))\<lparr>states := [''api'' \<mapsto>
        \<lparr> requests_made = 7, window_start = 100, current_backoff = 27,
          retry_count = 3, last_request_time = 130 \<rparr>]\<rparr>"

section \<open>Records as Python dictionaries\<close>

text \<open>
  A raw record is a \<open>Dict[str, Any]\<close>. Its values are the Python values the drift
  detector tells apart (\<open>_get_python_type\<close>); a value of any other class keeps the
  name of its class and its truth value. A \<open>datetime\<close> is a point in time, counted in
  microseconds. Dictionaries are association lists read with \<^const>\<open>map_of\<close>.
\<close>

type_synonym datetime = int

datatype pyval =
    PNone
  | PBool bool
  | PInt int
  | PFloat real
  | PStr string
  | PList "pyval list"
  | PDict "(string \<times> pyval) list"
  | PDatetime datetime
  | PObject string bool

type_synonym pydict = "(string \<times> pyval) list"

text \<open>\<open>d.get(k, default)\<close>; \<open>d.get(k)\<close> is \<open>dict_get d k PNone\<close>.\<close>

definition dict_get :: "pydict \<Rightarrow> string \<Rightarrow> pyval \<Rightarrow> pyval" where
  "dict_get d k dflt = (case map_of d k of Some v \<Rightarrow> v | None \<Rightarrow> dflt)"

definition dict_keys :: "pydict \<Rightarrow> string list" where
  "dict_keys d = remdups (map fst d)"

text \<open>The truth value Python gives a value in \<open>if v\<close> and \<open>v or w\<close>.\<close>

fun truthy :: "pyval \<Rightarrow> bool" where
  "truthy PNone = False"
| "truthy (PBool b) = b"
| "truthy (PInt i) = (i \<noteq> 0)"
| "truthy (PFloat x) = (x \<noteq> 0)"
| "truthy (PStr s) = (s \<noteq> [])"
| "truthy (PList xs) = (xs \<noteq> [])"
| "truthy (PDict d) = (d \<noteq> [])"
| "truthy (PDatetime t) = True"
| "truthy (PObject n b) = b"

text \<open>\<open>str.lower()\<close>, on ASCII letters.\<close>

definition lower_char :: "char \<Rightarrow> char" where
  "lower_char c =
     (case map_of (zip ''ABCDEFGHIJKLMNOPQRSTUVWXYZ'' ''abcdefghijklmnopqrstuvwxyz'') c of
        Some l \<Rightarrow> l
      | None \<Rightarrow> c)"

definition lower :: "string \<Rightarrow> string" where
  "lower s = map lower_char s"

text \<open>
  What the pipeline takes from Python's libraries is a parameter of the model, so every
  theorem holds whatever these functions compute:
  \<^item> \<open>py_str\<close>: \<open>str(v)\<close>, also the rendering of \<open>{v}\<close> in an f-string;
  \<^item> \<open>seq_ratio\<close>: \<open>difflib.SequenceMatcher(None, a, b).ratio()\<close>;
  \<^item> \<open>sha256_json\<close>: \<open>compute_checksum\<close>, the SHA-256 digest of the sorted JSON dump;
  \<^item> \<open>format_exc\<close>: \<open>traceback.format_exc()\<close> while the exception is handled;
  \<^item> \<open>isoformat\<close> and \<open>strftime_ymd\<close>: \<open>datetime.isoformat()\<close> and
    \<open>datetime.strftime("%Y-%m-%d")\<close>.
\<close>

record pylib =
  py_str :: "pyval \<Rightarrow> string"
  seq_ratio :: "string \<Rightarrow> string \<Rightarrow> real"
  sha256_json :: "pydict \<Rightarrow> string"
  format_exc :: "exn \<Rightarrow> string"
  isoformat :: "datetime \<Rightarrow> string"
  strftime_ymd :: "datetime \<Rightarrow> string"

subsection \<open>Source types and run states (core/models.py)\<close>

datatype SourceType = API | CSV | RSS

fun source_type_value :: "SourceType \<Rightarrow> string" where
  "source_type_value API = ''api''"
| "source_type_value CSV = ''csv''"
| "source_type_value RSS = ''rss''"

datatype RunStatus = RUNNING | SUCCESS | FAILED | PARTIAL

fun run_status_value :: "RunStatus \<Rightarrow> string" where
  "run_status_value RUNNING = ''running''"
| "run_status_value SUCCESS = ''success''"
| "run_status_value FAILED = ''failed''"
| "run_status_value PARTIAL = ''partial''"

section \<open>Schema drift detection (services/schema\_drift.py)\<close>

record DriftResult =
  field_name :: string
  drift_type :: string
  expected_type :: "string option"
  actual_type :: "string option"
  confidence_score :: real
  sample_value :: "string option"

text \<open>The class attribute \<open>EXPECTED_SCHEMAS\<close> as the source seeds it.\<close>

definition EXPECTED_SCHEMAS :: "(string \<times> (string \<times> string) list) list" where
  "EXPECTED_SCHEMAS =
     [(''api'',
        [(''id'', ''str''), (''title'', ''str''), (''description'', ''str''),
         (''content'', ''str''), (''author'', ''str''), (''category'', ''str''),
         (''tags'', ''list''), (''url'', ''str''), (''created_at'', ''datetime''),
         (''updated_at'', ''datetime'')]),
      (''csv'',
        [(''id'', ''str''), (''name'', ''str''), (''description'', ''str''),
         (''category'', ''str''), (''value'', ''float''), (''date'', ''datetime''),
         (''active'', ''bool'')]),
      (''rss'',
        [(''guid'', ''str''), (''title'', ''str''), (''description'', ''str''),
         (''link'', ''str''), (''author'', ''str''), (''pubDate'', ''datetime''),
         (''category'', ''str'')])]"

definition SCHEMA_DRIFT_CONFIDENCE_THRESHOLD :: real where
  "SCHEMA_DRIFT_CONFIDENCE_THRESHOLD = 0.8"

text \<open>
  A detector: its threshold and the schemas it compares against
  (\<open>update_expected_schema\<close> can replace them at run time).
\<close>

record SchemaDriftDetector =
  confidence_threshold :: real
  expected_schemas :: "(string \<times> (string \<times> string) list) list"

definition SchemaDriftDetector_init :: "real option \<Rightarrow> SchemaDriftDetector" where
  "SchemaDriftDetector_init ct =
     \<lparr> confidence_threshold =
         (case ct of None \<Rightarrow> SCHEMA_DRIFT_CONFIDENCE_THRESHOLD
          | Some c \<Rightarrow> if c = 0 then SCHEMA_DRIFT_CONFIDENCE_THRESHOLD else c),
       expected_schemas = EXPECTED_SCHEMAS \<rparr>"

fun get_python_type :: "pyval \<Rightarrow> string" where
  "get_python_type PNone = ''null''"
| "get_python_type (PBool b) = ''bool''"
| "get_python_type (PInt i) = ''int''"
| "get_python_type (PFloat x) = ''float''"
| "get_python_type (PStr s) = ''str''"
| "get_python_type (PList xs) = ''list''"
| "get_python_type (PDict d) = ''dict''"
| "get_python_type (PDatetime t) = ''datetime''"
| "get_python_type (PObject n b) = n"

text \<open>
  \<open>_fuzzy_match_field\<close>: the loop over the expected fields with its two variables. An
  exact match (ignoring case) returns at once; otherwise a strictly better ratio
  replaces the best match so far. Python iterates a set in an order it does not
  promise; the model iterates the list it is given.
\<close>

fun fuzzy_match_loop ::
  "pylib \<Rightarrow> string \<Rightarrow> string list \<Rightarrow> string option \<Rightarrow> real \<Rightarrow> string option \<times> real" where
  "fuzzy_match_loop lib fld [] best_match best_score = (best_match, best_score)"
| "fuzzy_match_loop lib fld (expected_field # rest) best_match best_score =
     (if lower fld = lower expected_field then (Some expected_field, 1)
      else (let score = seq_ratio lib (lower fld) (lower expected_field)
            in if score > best_score
               then fuzzy_match_loop lib fld rest (Some expected_field) score
               else fuzzy_match_loop lib fld rest best_match best_score))"

definition fuzzy_match_field :: "pylib \<Rightarrow> string \<Rightarrow> string list \<Rightarrow> string option \<times> real" where
  "fuzzy_match_field lib fld expected_fields = fuzzy_match_loop lib fld expected_fields None 0"

definition compatible_pairs :: "(string \<times> string) list" where
  "compatible_pairs =
     [(''int'', ''float''), (''float'', ''int''), (''str'', ''int''), (''str'', ''float''),
      (''datetime'', ''str''), (''list'', ''str'')]"

text \<open>
  \<open>_types_compatible\<close>; the expected type comes from \<open>expected_schema.get(field)\<close>, so
  it is an option, and \<open>None\<close> equals no type name.
\<close>

definition types_compatible :: "string option \<Rightarrow> string \<Rightarrow> bool" where
  "types_compatible expected actual =
     (case expected of
        None \<Rightarrow> False
      | Some e \<Rightarrow> e = actual \<or> (e, actual) \<in> set compatible_pairs
                           \<or> (actual, e) \<in> set compatible_pairs)"

text \<open>\<open>str(data.get(field))[:200] if data.get(field) else None\<close>.\<close>

definition sample_of :: "pylib \<Rightarrow> pyval \<Rightarrow> string option" where
  "sample_of lib v = (if truthy v then Some (take 200 (py_str lib v)) else None)"

text \<open>\<open>1.0 - score if match else 1.0\<close>: an empty field name is falsy like \<open>None\<close>.\<close>

definition match_confidence :: "string option \<Rightarrow> real \<Rightarrow> real" where
  "match_confidence match score =
     (case match of None \<Rightarrow> 1 | Some m \<Rightarrow> if m = [] then 1 else 1 - score)"

definition expected_schema_of :: "SchemaDriftDetector \<Rightarrow> SourceType \<Rightarrow> (string \<times> string) list" where
  "expected_schema_of det source_type =
     (case map_of (expected_schemas det) (source_type_value source_type) of
        Some schema \<Rightarrow> schema
      | None \<Rightarrow> [])"

text \<open>\<open>set(expected_schema.keys())\<close>, in the order the model iterates it.\<close>

definition schema_fields :: "(string \<times> string) list \<Rightarrow> string list" where
  "schema_fields expected_schema = remdups (map fst expected_schema)"

text \<open>The body of the first loop of \<open>detect_drift\<close>, for one field outside the schema.\<close>

definition new_field_drift ::
  "pylib \<Rightarrow> SchemaDriftDetector \<Rightarrow> (string \<times> string) list \<Rightarrow> pydict \<Rightarrow> string \<Rightarrow> DriftResult" where
  "new_field_drift lib det expected_schema data fld =
     (let (match, score) = fuzzy_match_field lib fld (schema_fields expected_schema)
      in if score \<ge> confidence_threshold det
         then \<lparr> field_name = fld, drift_type = ''renamed_field'',
                expected_type = (case match of None \<Rightarrow> None | Some m \<Rightarrow> map_of expected_schema m),
                actual_type = Some (get_python_type (dict_get data fld PNone)),
                confidence_score = score,
                sample_value = sample_of lib (dict_get data fld PNone) \<rparr>
         else \<lparr> field_name = fld, drift_type = ''new_field'',
                expected_type = None,
                actual_type = Some (get_python_type (dict_get data fld PNone)),
                confidence_score = match_confidence match score,
                sample_value = sample_of lib (dict_get data fld PNone) \<rparr>)"

text \<open>
  The body of the second loop, for one expected field the record lacks: a drift only
  when no field of the record is similar enough.
\<close>

definition missing_field_drift ::
  "pylib \<Rightarrow> SchemaDriftDetector \<Rightarrow> (string \<times> string) list \<Rightarrow> pydict \<Rightarrow> string
     \<Rightarrow> DriftResult option" where
  "missing_field_drift lib det expected_schema data fld =
     (let (match, score) = fuzzy_match_field lib fld (dict_keys data)
      in if score < confidence_threshold det
         then Some \<lparr> field_name = fld, drift_type = ''missing_field'',
                     expected_type = map_of expected_schema fld,
                     actual_type = None,
                     confidence_score = match_confidence match score,
                     sample_value = None \<rparr>
         else None)"

text \<open>The body of the third loop, for one field both sides have.\<close>

definition type_change_drift ::
  "pylib \<Rightarrow> (string \<times> string) list \<Rightarrow> pydict \<Rightarrow> string \<Rightarrow> DriftResult option" where
  "type_change_drift lib expected_schema data fld =
     (let expected = map_of expected_schema fld;
          actual = get_python_type (dict_get data fld PNone)
      in if \<not> types_compatible expected actual
         then Some \<lparr> field_name = fld, drift_type = ''type_change'',
                     expected_type = expected,
                     actual_type = Some actual,
                     confidence_score = 1,
                     sample_value = sample_of lib (dict_get data fld PNone) \<rparr>
         else None)"

text \<open>
  \<open>detect_drift\<close>: the three loops in the source's order, over the set differences
  and the intersection of the two key sets.
\<close>

definition detect_drift ::
  "pylib \<Rightarrow> SchemaDriftDetector \<Rightarrow> SourceType \<Rightarrow> pydict \<Rightarrow> DriftResult list" where
  "detect_drift lib det source_type data =
     (let expected_schema = expected_schema_of det source_type;
          expected_fields = schema_fields expected_schema;
          actual_fields = dict_keys data
      in map (new_field_drift lib det expected_schema data)
             (filter (\<lambda>f. f \<notin> set expected_fields) actual_fields)
         @ List.map_filter (missing_field_drift lib det expected_schema data)
             (filter (\<lambda>f. f \<notin> set actual_fields) expected_fields)
         @ List.map_filter (type_change_drift lib expected_schema data)
             (filter (\<lambda>f. f \<in> set actual_fields) expected_fields))"

text \<open>
  Library functions for the examples: \<open>str\<close> on the values whose rendering needs no
  float or container formatting, and a similarity ratio that is 0 for strings without
  a common character, as \<open>SequenceMatcher\<close>'s is, and \<open>2 / (|a| + |b|)\<close>, one matching
  character, otherwise.
\<close>

fun str_basic :: "pyval \<Rightarrow> string" where
  "str_basic PNone = ''None''"
| "str_basic (PBool b) = (if b then ''True'' else ''False'')"
| "str_basic (PInt i) = str_int i"
| "str_basic (PStr s) = s"
| "str_basic v = ''<object>''"

definition ratio_one_char :: "string \<Rightarrow> string \<Rightarrow> real" where
  "ratio_one_char a b =
     (if list_ex (\<lambda>c. c \<in> set b) a then 2 / real (length a + length b) else 0)"

definition example_lib :: pylib where
  "example_lib =
     \<lparr> py_str = str_basic, seq_ratio = ratio_one_char,
       sha256_json = (\<lambda>d. concat (map fst d)),
       format_exc = (\<lambda>e. ''Traceback (most recent call last): '' @ exn_str e),
       isoformat = str_int,
       strftime_ymd = (\<lambda>t. if t < 86400000000 then ''1970-01-01'' else ''1970-01-02'') \<rparr>"

definition csv_row_with_extra :: pydict where
  "csv_row_with_extra =
     [(''id'', PStr ''7''), (''name'', PStr ''N''), (''description'', PStr ''D''),
      (''category'', PStr ''c''), (''value'', PFloat 1.5), (''date'', PStr ''2024-01-15''),
      (''active'', PBool True), (''zzz'', PStr ''surprise'')]"

definition csv_row_without_value :: pydict where
  "csv_row_without_value =
     [(''id'', PStr ''7''), (''name'', PStr ''N''), (''description'', PStr ''D''),
      (''category'', PStr ''c''), (''date'', PStr ''2024-01-15''), (''active'', PBool True)]"

section \<open>The store, the clock and failures of the store\<close>

text \<open>
  The tables of core/models.py that the ingestion code reads and writes, as the session
  \<open>db\<close> sees them after a commit. A table with a unique key is a map from that key
  (\<open>etl_checkpoints\<close>: one row per source type; \<open>etl_runs\<close>: one row per run id); the
  raw and unified tables are lists of rows in insertion order, with the sequence that
  hands out their integer keys. The surrogate keys of the checkpoint, run and drift
  tables are never read by this code and are left out.

  Two things outside the program decide what a run sees, and both are part of the
  state as oracles with a position:
  \<^item> the clock: reading number \<open>n\<close> of \<open>datetime.utcnow()\<close> returns \<open>clock n\<close>;
  \<^item> the store's failures: call number \<open>n\<close> to the database (a query, an execute, a
    commit, a refresh) raises an exception with message \<open>m\<close> when
    \<open>fault_plan n = Some m\<close>, and then has no effect on the tables. A rollback only
    discards what the session has not committed; it is not a call that can fail.
\<close>

record ETLCheckpoint =
  cp_source_type :: SourceType
  last_source_id :: "string option"
  last_processed_at :: "datetime option"
  last_offset :: int
  checkpoint_metadata :: "pydict option"
  cp_updated_at :: datetime

record counters =
  records_extracted :: int
  records_transformed :: int
  records_loaded :: int
  records_skipped :: int
  records_failed :: int

record ETLRun =
  run_id :: string
  run_source_type :: SourceType
  status :: RunStatus
  started_at :: datetime
  completed_at :: "datetime option"
  duration_seconds :: "real option"
  run_counters :: counters
  error_message :: "string option"
  error_traceback :: "string option"
  checkpoint_data :: "pydict option"
  run_metadata :: pydict

datatype raw_table = RawAPIData | RawCSVData | RawRSSData

text \<open>
  A row of a raw table. \<open>raw_columns\<close> holds the columns only one table has
  (\<open>source_file\<close> and \<open>row_number\<close>, or \<open>feed_url\<close>).
\<close>

record raw_row =
  raw_pk :: int
  raw_source_id :: string
  raw_payload :: pydict
  raw_checksum :: string
  ingested_at :: datetime
  raw_columns :: pydict

text \<open>
  A row of \<open>unified_data\<close>; \<open>unified_fields\<close> are the normalized columns the transform
  produced (\<open>**transformed_data\<close>).
\<close>

record unified_row =
  unified_pk :: int
  unified_source_type :: SourceType
  unified_source_id :: string
  unified_raw_id :: int
  unified_fields :: pydict
  created_at :: datetime
  updated_at :: datetime

record SchemaDrift =
  drift_source_type :: SourceType
  drift :: DriftResult
  detected_at :: "datetime option"
  resolved :: bool
  resolved_at :: "datetime option"

record world =
  etl_checkpoints :: "SourceType \<rightharpoonup> ETLCheckpoint"
  etl_runs :: "string \<rightharpoonup> ETLRun"
  raw_data :: "raw_table \<Rightarrow> raw_row list"
  raw_seq :: "raw_table \<Rightarrow> int"
  unified_data :: "unified_row list"
  unified_seq :: int
  schema_drift :: "SchemaDrift list"
  clock :: "nat \<Rightarrow> datetime"
  ticks :: nat
  fault_plan :: "nat \<Rightarrow> string option"
  db_calls :: nat

definition utcnow :: "world \<Rightarrow> datetime \<times> world" where
  "utcnow w = (clock w (ticks w), w\<lparr>ticks := Suc (ticks w)\<rparr>)"

text \<open>One call to the database: the exception it raises, if the plan has one for it.\<close>

definition db_call :: "world \<Rightarrow> exn option \<times> world" where
  "db_call w =
     (map_option (Exn Exception) (fault_plan w (db_calls w)), w\<lparr>db_calls := Suc (db_calls w)\<rparr>)"

text \<open>The store never fails.\<close>

definition healthy :: "world \<Rightarrow> bool" where
  "healthy w = (\<forall>n. fault_plan w n = None)"


text \<open>\<open>timedelta.total_seconds()\<close> of a difference of two points in time.\<close>

definition total_seconds :: "int \<Rightarrow> real" where
  "total_seconds us = real_of_int us / 1000000"

section \<open>Checkpoints (services/checkpoint.py)\<close>

text \<open>
  \<open>get_checkpoint\<close>: the query is the one database call; its exception becomes a
  \<open>CheckpointError\<close> whose message ends with the message of the cause.
\<close>

definition get_checkpoint :: "world \<Rightarrow> SourceType \<Rightarrow> (exn + ETLCheckpoint option) \<times> world" where
  "get_checkpoint w source_type =
     (case db_call w of
        (Some e, w1) \<Rightarrow>
          (Inl (Exn CheckpointError (''Failed to get checkpoint: '' @ exn_str e)), w1)
      | (None, w1) \<Rightarrow> (Inr (etl_checkpoints w1 source_type), w1))"

definition get_last_source_id :: "world \<Rightarrow> SourceType \<Rightarrow> (exn + string option) \<times> world" where
  "get_last_source_id w source_type =
     (case get_checkpoint w source_type of
        (Inl e, w1) \<Rightarrow> (Inl e, w1)
      | (Inr None, w1) \<Rightarrow> (Inr None, w1)
      | (Inr (Some checkpoint), w1) \<Rightarrow> (Inr (last_source_id checkpoint), w1))"

definition get_last_offset :: "world \<Rightarrow> SourceType \<Rightarrow> (exn + int) \<times> world" where
  "get_last_offset w source_type =
     (case get_checkpoint w source_type of
        (Inl e, w1) \<Rightarrow> (Inl e, w1)
      | (Inr None, w1) \<Rightarrow> (Inr 0, w1)
      | (Inr (Some checkpoint), w1) \<Rightarrow> (Inr (last_offset checkpoint), w1))"

text \<open>
  The row \<open>update_checkpoint\<close> builds before it commits: a new row when there is none
  (\<open>last_offset or 0\<close>), otherwise the stored row with the arguments that are not
  \<open>None\<close> written over it; \<open>last_processed_at\<close> is the clock reading in both cases.
\<close>

definition patched_checkpoint ::
  "ETLCheckpoint option \<Rightarrow> SourceType \<Rightarrow> string option \<Rightarrow> int option \<Rightarrow> pydict option
     \<Rightarrow> datetime \<Rightarrow> datetime \<Rightarrow> ETLCheckpoint" where
  "patched_checkpoint stored source_type new_source_id new_offset metadata now flushed =
     (case stored of
        None \<Rightarrow>
          \<lparr> cp_source_type = source_type,
            last_source_id = new_source_id,
            last_processed_at = Some now,
            last_offset = (case new_offset of None \<Rightarrow> 0 | Some n \<Rightarrow> if n = 0 then 0 else n),
            checkpoint_metadata = metadata,
            cp_updated_at = flushed \<rparr>
      | Some checkpoint \<Rightarrow>
          checkpoint
            \<lparr> last_source_id :=
                (case new_source_id of None \<Rightarrow> last_source_id checkpoint | Some s \<Rightarrow> Some s),
              last_offset :=
                (case new_offset of None \<Rightarrow> last_offset checkpoint | Some n \<Rightarrow> n),
              checkpoint_metadata :=
                (case metadata of None \<Rightarrow> checkpoint_metadata checkpoint | Some m \<Rightarrow> Some m),
              last_processed_at := Some now,
              cp_updated_at := flushed \<rparr>)"

text \<open>
  \<open>update_checkpoint\<close>: the query (through \<open>get_checkpoint\<close>), the clock reading for
  \<open>last_processed_at\<close>, the commit (whose flush stamps \<open>updated_at\<close>), the refresh. An
  exception of any of the three calls is caught, the session rolled back, and a
  \<open>CheckpointError\<close> raised; after a failed refresh the row is already committed.
\<close>

definition update_checkpoint ::
  "world \<Rightarrow> SourceType \<Rightarrow> string option \<Rightarrow> int option \<Rightarrow> pydict option
     \<Rightarrow> (exn + ETLCheckpoint) \<times> world" where
  "update_checkpoint w source_type new_source_id new_offset metadata =
     (case get_checkpoint w source_type of
        (Inl e, w1) \<Rightarrow>
          (Inl (Exn CheckpointError (''Failed to update checkpoint: '' @ exn_str e)), w1)
      | (Inr stored, w1) \<Rightarrow>
          (let (now, w2) = utcnow w1 in
           case db_call w2 of
             (Some e, w3) \<Rightarrow>
               (Inl (Exn CheckpointError (''Failed to update checkpoint: '' @ exn_str e)), w3)
           | (None, w3) \<Rightarrow>
               (let (flushed, w4) = utcnow w3;
                    checkpoint = patched_checkpoint stored source_type new_source_id new_offset
                                   metadata now flushed;
                    w5 = w4\<lparr>etl_checkpoints := (etl_checkpoints w4)(source_type \<mapsto> checkpoint)\<rparr>
                in case db_call w5 of
                     (Some e, w6) \<Rightarrow>
                       (Inl (Exn CheckpointError
                               (''Failed to update checkpoint: '' @ exn_str e)), w6)
                   | (None, w6) \<Rightarrow> (Inr checkpoint, w6))))"

text \<open>
  \<open>reset_checkpoint\<close>: clears the cursor of the stored row and commits; with no row it
  does nothing.
\<close>

definition reset_checkpoint :: "world \<Rightarrow> SourceType \<Rightarrow> (exn + unit) \<times> world" where
  "reset_checkpoint w source_type =
     (case get_checkpoint w source_type of
        (Inl e, w1) \<Rightarrow>
          (Inl (Exn CheckpointError (''Failed to reset checkpoint: '' @ exn_str e)), w1)
      | (Inr None, w1) \<Rightarrow> (Inr (), w1)
      | (Inr (Some checkpoint), w1) \<Rightarrow>
          (case db_call w1 of
             (Some e, w2) \<Rightarrow>
               (Inl (Exn CheckpointError (''Failed to reset checkpoint: '' @ exn_str e)), w2)
           | (None, w2) \<Rightarrow>
               (let (flushed, w3) = utcnow w2;
                    cleared = checkpoint\<lparr>last_source_id := None, last_offset := 0,
                                last_processed_at := None, checkpoint_metadata := None,
                                cp_updated_at := flushed\<rparr>
                in (Inr (), w3\<lparr>etl_checkpoints :=
                                 (etl_checkpoints w3)(source_type \<mapsto> cleared)\<rparr>))))"

section \<open>Run tracking (services/etl\_tracker.py)\<close>

text \<open>
  \<open>start_run\<close>: the run id is the UUID the call draws (an argument of the model). The
  commit and the refresh are not guarded: their exception leaves the function.
\<close>

definition start_run ::
  "world \<Rightarrow> SourceType \<Rightarrow> pydict option \<Rightarrow> string \<Rightarrow> (exn + ETLRun) \<times> world" where
  "start_run w source_type metadata uuid =
     (let (now, w1) = utcnow w;
          run = \<lparr> run_id = uuid, run_source_type = source_type, status = RUNNING,
                  started_at = now, completed_at = None, duration_seconds = None,
                  run_counters = \<lparr> records_extracted = 0, records_transformed = 0,
                                   records_loaded = 0, records_skipped = 0,
                                   records_failed = 0 \<rparr>,
                  error_message = None, error_traceback = None, checkpoint_data = None,
                  run_metadata = (case metadata of None \<Rightarrow> [] | Some m \<Rightarrow> m) \<rparr>
      in case db_call w1 of
           (Some e, w2) \<Rightarrow> (Inl e, w2)
         | (None, w2) \<Rightarrow>
             (let w3 = w2\<lparr>etl_runs := (etl_runs w2)(uuid \<mapsto> run)\<rparr>
              in case db_call w3 of
                   (Some e, w4) \<Rightarrow> (Inl e, w4)
                 | (None, w4) \<Rightarrow> (Inr run, w4)))"

text \<open>
  \<open>complete_run\<close>: \<open>handled\<close> is the exception being handled when the function is
  called, which \<open>traceback.format_exc()\<close> formats. An exception object is truthy, and
  the checkpoint data is stored when the dictionary is not empty.
\<close>

definition complete_run ::
  "pylib \<Rightarrow> world \<Rightarrow> ETLRun \<Rightarrow> RunStatus \<Rightarrow> counters \<Rightarrow> exn option \<Rightarrow> pydict option
     \<Rightarrow> exn option \<Rightarrow> (exn + ETLRun) \<times> world" where
  "complete_run lib w run new_status final_counters error checkpoint handled =
     (let (now, w1) = utcnow w;
          run1 = run\<lparr>status := new_status, completed_at := Some now,
                     duration_seconds := Some (total_seconds (now - started_at run)),
                     run_counters := final_counters\<rparr>;
          run2 = (case error of
                    None \<Rightarrow> run1
                  | Some e \<Rightarrow> run1\<lparr>error_message := Some (exn_str e),
                                     error_traceback := Some (case handled of
                                         None \<Rightarrow> ''NoneType: None''
                                       | Some h \<Rightarrow> format_exc lib h)\<rparr>);
          run3 = (case checkpoint of
                    None \<Rightarrow> run2
                  | Some d \<Rightarrow> if d = [] then run2 else run2\<lparr>checkpoint_data := Some d\<rparr>)
      in case db_call w1 of
           (Some e, w2) \<Rightarrow> (Inl e, w2)
         | (None, w2) \<Rightarrow>
             (let w3 = w2\<lparr>etl_runs := (etl_runs w2)(run_id run \<mapsto> run3)\<rparr>
              in case db_call w3 of
                   (Some e, w4) \<Rightarrow> (Inl e, w4)
                 | (None, w4) \<Rightarrow> (Inr run3, w4)))"

section \<open>Extractors (ingestion/base.py and its subclasses)\<close>

text \<open>
  The four subclasses of \<open>BaseExtractor\<close>. \<open>CoinGeckoExtractor\<close> declares the source
  type \<open>RSS\<close> and writes to the raw RSS table, as the source does.
\<close>

datatype extractor_class = CSVExtractor | APIExtractor | RSSExtractor | CoinGeckoExtractor

fun source_type_of :: "extractor_class \<Rightarrow> SourceType" where
  "source_type_of CSVExtractor = CSV"
| "source_type_of APIExtractor = API"
| "source_type_of RSSExtractor = RSS"
| "source_type_of CoinGeckoExtractor = RSS"

fun raw_table_of :: "extractor_class \<Rightarrow> raw_table" where
  "raw_table_of CSVExtractor = RawCSVData"
| "raw_table_of APIExtractor = RawAPIData"
| "raw_table_of RSSExtractor = RawRSSData"
| "raw_table_of CoinGeckoExtractor = RawRSSData"

text \<open>
  An extractor object: its class, the feed URL the RSS classes store with a raw row, the
  drift detector (absent when \<open>detect_schema_drift\<close> is false), the five counters, and
  \<open>transform\<close>. \<open>transform\<close> is an abstract method of the base class; it reads nothing
  but its argument and may raise. The model takes it as a function, so what is proved
  of \<open>run\<close> holds for the transform of every subclass.
\<close>

record extractor =
  extractor_cls :: extractor_class
  feed_url :: string
  drift_detector :: "SchemaDriftDetector option"
  transform :: "pydict \<Rightarrow> exn + pydict"
  stats :: counters

definition RSS_SOURCE_URL :: string where
  "RSS_SOURCE_URL = ''https://api.coingecko.com/api/v3''"

text \<open>
  \<open>__init__\<close> with the defaults the orchestrator uses: drift detection on, counters at
  zero.
\<close>

definition extractor_init :: "extractor_class \<Rightarrow> (pydict \<Rightarrow> exn + pydict) \<Rightarrow> extractor" where
  "extractor_init c tr =
     \<lparr> extractor_cls = c,
       feed_url = (case c of
                     RSSExtractor \<Rightarrow> RSS_SOURCE_URL
                   | CoinGeckoExtractor \<Rightarrow> ''https://api.coingecko.com/api/v3/coins/markets''
                   | _ \<Rightarrow> []),
       drift_detector = Some (SchemaDriftDetector_init None),
       transform = tr,
       stats = \<lparr> records_extracted = 0, records_transformed = 0, records_loaded = 0,
                 records_skipped = 0, records_failed = 0 \<rparr> \<rparr>"

text \<open>
  \<open>get_source_id\<close> of each class. The API classes put today's date into the id, so they
  read the clock.
\<close>

definition get_source_id :: "pylib \<Rightarrow> extractor \<Rightarrow> world \<Rightarrow> pydict \<Rightarrow> string \<times> world" where
  "get_source_id lib ex w raw =
     (case extractor_cls ex of
        CSVExtractor \<Rightarrow>
          (py_str lib (dict_get raw ''_source_file'' (PStr ''unknown'')) @ '':''
             @ py_str lib (dict_get raw ''_row_number'' (PInt 0)), w)
      | APIExtractor \<Rightarrow>
          (let (now, w1) = utcnow w
           in (''coinpaprika:'' @ py_str lib (dict_get raw ''id'' (PStr [])) @ '':''
                 @ strftime_ymd lib now, w1))
      | RSSExtractor \<Rightarrow>
          (py_str lib (dict_get raw ''guid'' (PStr (sha256_json lib raw))), w)
      | CoinGeckoExtractor \<Rightarrow>
          (let (now, w1) = utcnow w
           in (''coingecko:'' @ py_str lib (dict_get raw ''id'' (PStr [])) @ '':''
                 @ strftime_ymd lib now, w1)))"

text \<open>
  \<open>should_process\<close>: true without a stored \<open>last_source_id\<close>, otherwise Python's
  \<open>source_id > last_id\<close> on strings, the lexicographic order of the code points.
\<close>

definition should_process :: "extractor \<Rightarrow> world \<Rightarrow> string \<Rightarrow> (exn + bool) \<times> world" where
  "should_process ex w source_id =
     (case get_last_source_id w (source_type_of (extractor_cls ex)) of
        (Inl e, w1) \<Rightarrow> (Inl e, w1)
      | (Inr None, w1) \<Rightarrow> (Inr True, w1)
      | (Inr (Some last_id), w1) \<Rightarrow> (Inr (source_id > last_id), w1))"

subsection \<open>The two upserts\<close>

text \<open>
  What \<open>load_raw\<close> stores as payload and in the columns of its own table. The CSV
  class removes the keys that start with an underscore from the payload.
\<close>

definition raw_payload_of :: "extractor \<Rightarrow> pydict \<Rightarrow> pydict" where
  "raw_payload_of ex raw =
     (case extractor_cls ex of
        CSVExtractor \<Rightarrow> filter (\<lambda>(k, v). take 1 k \<noteq> ''_'') raw
      | _ \<Rightarrow> raw)"

definition raw_columns_of :: "extractor \<Rightarrow> pydict \<Rightarrow> pydict" where
  "raw_columns_of ex raw =
     (case extractor_cls ex of
        CSVExtractor \<Rightarrow>
          [(''source_file'', dict_get raw ''_source_file'' (PStr ''unknown'')),
           (''row_number'', dict_get raw ''_row_number'' (PInt 0))]
      | APIExtractor \<Rightarrow> []
      | _ \<Rightarrow> [(''feed_url'', PStr (feed_url ex))])"

text \<open>
  \<open>INSERT ... ON CONFLICT (source_id) DO UPDATE ... RETURNING id\<close> on a raw table: a
  row with the source id keeps its key and gets the new payload, checksum and time;
  otherwise a row with the next key of the sequence is added. The result is the key.
\<close>

definition upsert_raw :: "world \<Rightarrow> raw_table \<Rightarrow> raw_row \<Rightarrow> datetime \<Rightarrow> int \<times> world" where
  "upsert_raw w tbl new_row updated =
     (case find (\<lambda>r. raw_source_id r = raw_source_id new_row) (raw_data w tbl) of
        Some existing \<Rightarrow>
          (raw_pk existing,
           w\<lparr>raw_data := (raw_data w)(tbl :=
                map (\<lambda>r. if raw_source_id r = raw_source_id new_row
                          then r\<lparr>raw_payload := raw_payload new_row,
                                 raw_checksum := raw_checksum new_row,
                                 ingested_at := updated\<rparr>
                          else r)
                    (raw_data w tbl))\<rparr>)
      | None \<Rightarrow>
          (raw_seq w tbl,
           w\<lparr>raw_data := (raw_data w)(tbl :=
                raw_data w tbl @ [new_row\<lparr>raw_pk := raw_seq w tbl\<rparr>]),
             raw_seq := (raw_seq w)(tbl := raw_seq w tbl + 1)\<rparr>))"

text \<open>
  \<open>load_raw\<close>: the source id, the checksum, two clock readings (the insert's and the
  update's \<open>ingested_at\<close>), then the execute and the commit. Neither call is guarded.
\<close>

definition load_raw :: "pylib \<Rightarrow> extractor \<Rightarrow> world \<Rightarrow> pydict \<Rightarrow> (exn + int) \<times> world" where
  "load_raw lib ex w raw =
     (let (source_id, w1) = get_source_id lib ex w raw;
          (inserted, w2) = utcnow w1;
          (updated, w3) = utcnow w2;
          new_row = \<lparr> raw_pk = 0, raw_source_id = source_id,
                      raw_payload = raw_payload_of ex raw,
                      raw_checksum = sha256_json lib raw,
                      ingested_at = inserted,
                      raw_columns = raw_columns_of ex raw \<rparr>
      in case db_call w3 of
           (Some e, w4) \<Rightarrow> (Inl e, w4)
         | (None, w4) \<Rightarrow>
             (case db_call w4 of
                (Some e, w5) \<Rightarrow> (Inl e, w5)
              | (None, w5) \<Rightarrow>
                  (let (pk, w6) = upsert_raw w5 (raw_table_of (extractor_cls ex)) new_row updated
                   in (Inr pk, w6))))"

text \<open>The pair the constraint \<open>uq_unified_source\<close> makes unique.\<close>

definition unified_key :: "unified_row \<Rightarrow> SourceType \<times> string" where
  "unified_key u = (unified_source_type u, unified_source_id u)"

text \<open>
  \<open>INSERT ... ON CONFLICT ON CONSTRAINT uq_unified_source DO UPDATE ... RETURNING id\<close>:
  a row with the same source type and source id gets the new raw id, fields and
  \<open>updated_at\<close>; otherwise the row is added with the next key.
\<close>

definition upsert_unified :: "world \<Rightarrow> unified_row \<Rightarrow> datetime \<Rightarrow> int \<times> world" where
  "upsert_unified w new_row updated =
     (case find (\<lambda>u. unified_key u = unified_key new_row) (unified_data w) of
        Some existing \<Rightarrow>
          (unified_pk existing,
           w\<lparr>unified_data :=
                map (\<lambda>u. if unified_key u = unified_key new_row
                          then u\<lparr>unified_raw_id := unified_raw_id new_row,
                                 updated_at := updated,
                                 unified_fields := unified_fields new_row\<rparr>
                          else u)
                    (unified_data w)\<rparr>)
      | None \<Rightarrow>
          (unified_seq w,
           w\<lparr>unified_data := unified_data w @ [new_row\<lparr>unified_pk := unified_seq w\<rparr>],
             unified_seq := unified_seq w + 1\<rparr>))"

text \<open>
  \<open>load_unified\<close>: the source id of the unified row is \<open>str(raw_id)\<close>. The clock is
  read for the update's \<open>updated_at\<close> and for the two column defaults of an insert.
\<close>

definition load_unified ::
  "pylib \<Rightarrow> extractor \<Rightarrow> world \<Rightarrow> pydict \<Rightarrow> int \<Rightarrow> (exn + int) \<times> world" where
  "load_unified lib ex w transformed_data raw_id =
     (let (updated, w1) = utcnow w;
          (created_default, w2) = utcnow w1;
          (updated_default, w3) = utcnow w2;
          new_row = \<lparr> unified_pk = 0,
                      unified_source_type = source_type_of (extractor_cls ex),
                      unified_source_id = str_int raw_id,
                      unified_raw_id = raw_id,
                      unified_fields = transformed_data,
                      created_at = created_default,
                      updated_at = updated_default \<rparr>
      in case db_call w3 of
           (Some e, w4) \<Rightarrow> (Inl e, w4)
         | (None, w4) \<Rightarrow>
             (case db_call w4 of
                (Some e, w5) \<Rightarrow> (Inl e, w5)
              | (None, w5) \<Rightarrow>
                  (let (pk, w6) = upsert_unified w5 new_row updated
                   in (Inr pk, w6))))"

subsection \<open>Recording drifts\<close>

text \<open>
  \<open>record_drifts\<close> adds one row per drift and commits; the flush stamps each row's
  \<open>detected_at\<close>. A failed commit is rolled back and logged, not raised, and the
  objects it returns were never stored.
\<close>

fun stamp_drifts :: "world \<Rightarrow> SourceType \<Rightarrow> DriftResult list \<Rightarrow> SchemaDrift list \<times> world" where
  "stamp_drifts w source_type [] = ([], w)"
| "stamp_drifts w source_type (d # ds) =
     (let (now, w1) = utcnow w;
          (rows, w2) = stamp_drifts w1 source_type ds
      in (\<lparr> drift_source_type = source_type, drift = d, detected_at = Some now,
             resolved = False, resolved_at = None \<rparr> # rows, w2))"

definition record_drifts ::
  "world \<Rightarrow> SourceType \<Rightarrow> DriftResult list \<Rightarrow> SchemaDrift list \<times> world" where
  "record_drifts w source_type drifts =
     (if drifts = [] then ([], w)
      else case db_call w of
             (Some e, w1) \<Rightarrow>
               (map (\<lambda>d. \<lparr> drift_source_type = source_type, drift = d, detected_at = None,
                           resolved = False, resolved_at = None \<rparr>) drifts, w1)
           | (None, w1) \<Rightarrow>
               (let (rows, w2) = stamp_drifts w1 source_type drifts
                in (rows, w2\<lparr>schema_drift := schema_drift w2 @ rows\<rparr>)))"

subsection \<open>The run\<close>

definition bump_skipped :: "extractor \<Rightarrow> extractor" where
  "bump_skipped ex = ex\<lparr>stats := (stats ex)\<lparr>records_skipped := records_skipped (stats ex) + 1\<rparr>\<rparr>"

definition bump_extracted :: "extractor \<Rightarrow> extractor" where
  "bump_extracted ex = ex\<lparr>stats := (stats ex)\<lparr>records_extracted := records_extracted (stats ex) + 1\<rparr>\<rparr>"

definition bump_transformed :: "extractor \<Rightarrow> extractor" where
  "bump_transformed ex = ex\<lparr>stats := (stats ex)\<lparr>records_transformed := records_transformed (stats ex) + 1\<rparr>\<rparr>"

definition bump_loaded :: "extractor \<Rightarrow> extractor" where
  "bump_loaded ex = ex\<lparr>stats := (stats ex)\<lparr>records_loaded := records_loaded (stats ex) + 1\<rparr>\<rparr>"

definition bump_failed :: "extractor \<Rightarrow> extractor" where
  "bump_failed ex = ex\<lparr>stats := (stats ex)\<lparr>records_failed := records_failed (stats ex) + 1\<rparr>\<rparr>"

text \<open>
  The drift step of the loop body: detect, and record when the list is not empty.
\<close>

definition drift_step :: "pylib \<Rightarrow> extractor \<Rightarrow> world \<Rightarrow> pydict \<Rightarrow> world" where
  "drift_step lib ex w raw =
     (case drift_detector ex of
        None \<Rightarrow> w
      | Some det \<Rightarrow>
          (let drifts = detect_drift lib det (source_type_of (extractor_cls ex)) raw
           in if drifts \<noteq> []
              then snd (record_drifts w (source_type_of (extractor_cls ex)) drifts)
              else w))"

text \<open>
  The body of the loop of \<open>run\<close> for one raw record, with the inner \<open>try\<close>: every
  exception of the body counts the record as failed and the loop goes on. The state is
  the extractor (its counters), the store and the local variable \<open>last_source_id\<close>.
\<close>

definition process_record ::
  "pylib \<Rightarrow> extractor \<times> world \<times> string option \<Rightarrow> pydict \<Rightarrow> extractor \<times> world \<times> string option" where
  "process_record lib state raw =
     (case state of (ex, w, last_id) \<Rightarrow>
      (let (source_id, w1) = get_source_id lib ex w raw in
       case should_process ex w1 source_id of
         (Inl e, w2) \<Rightarrow> (bump_failed ex, w2, last_id)
       | (Inr False, w2) \<Rightarrow> (bump_skipped ex, w2, last_id)
       | (Inr True, w2) \<Rightarrow>
           (let ex1 = bump_extracted ex;
                w3 = drift_step lib ex1 w2 raw
            in case load_raw lib ex1 w3 raw of
                 (Inl e, w4) \<Rightarrow> (bump_failed ex1, w4, last_id)
               | (Inr raw_id, w4) \<Rightarrow>
                   (case transform ex1 raw of
                      Inl e \<Rightarrow> (bump_failed ex1, w4, last_id)
                    | Inr transformed \<Rightarrow>
                        (let ex2 = bump_transformed ex1
                         in case load_unified lib ex2 w4 transformed raw_id of
                              (Inl e, w5) \<Rightarrow> (bump_failed ex2, w5, last_id)
                            | (Inr unified_id, w5) \<Rightarrow>
                                (bump_loaded ex2, w5, Some source_id))))))"

text \<open>
  What \<open>extract()\<close> produced during one run: the records the generator yielded, in
  order, and the exception that ended it, if one did. The loop handles each record
  before it asks for the next, so the exception comes after the last record's
  handling.
\<close>

type_synonym extraction = "pydict list \<times> exn option"

definition checkpoint_info :: "pylib \<Rightarrow> ETLCheckpoint option \<Rightarrow> pyval" where
  "checkpoint_info lib checkpoint =
     (case checkpoint of
        None \<Rightarrow> PNone
      | Some c \<Rightarrow>
          PDict [(''last_source_id'',
                    (case last_source_id c of None \<Rightarrow> PNone | Some s \<Rightarrow> PStr s)),
                 (''last_offset'', PInt (last_offset c)),
                 (''last_processed_at'',
                    (case last_processed_at c of
                       None \<Rightarrow> PNone
                     | Some t \<Rightarrow> PStr (isoformat lib t)))])"

definition run_result :: "ETLRun \<Rightarrow> extractor \<Rightarrow> RunStatus \<Rightarrow> pydict" where
  "run_result run ex final_status =
     [(''run_id'', PStr (run_id run)),
      (''source_type'', PStr (source_type_value (source_type_of (extractor_cls ex)))),
      (''status'', PStr (run_status_value final_status)),
      (''records_extracted'', PInt (records_extracted (stats ex))),
      (''records_transformed'', PInt (records_transformed (stats ex))),
      (''records_loaded'', PInt (records_loaded (stats ex))),
      (''records_skipped'', PInt (records_skipped (stats ex))),
      (''records_failed'', PInt (records_failed (stats ex)))]"

text \<open>
  The \<open>except\<close> branch of the outer \<open>try\<close>: complete the run as failed with the
  exception, then raise it again. If completing the run raises, that exception leaves
  instead.
\<close>

definition fail_run ::
  "pylib \<Rightarrow> extractor \<Rightarrow> world \<Rightarrow> ETLRun \<Rightarrow> exn \<Rightarrow> (exn + pydict) \<times> extractor \<times> world" where
  "fail_run lib ex w run e =
     (case complete_run lib w run FAILED (stats ex) (Some e) None (Some e) of
        (Inl e', w1) \<Rightarrow> (Inl e', ex, w1)
      | (Inr run', w1) \<Rightarrow> (Inl e, ex, w1))"

text \<open>
  The checkpoint write after the loop: \<open>if last_source_id:\<close> holds for a string that is
  not empty. The result is the exception the write raised, if it did.
\<close>

definition write_checkpoint :: "extractor \<Rightarrow> world \<Rightarrow> string option \<Rightarrow> exn option \<times> world" where
  "write_checkpoint ex w last_id =
     (if last_id \<noteq> None \<and> last_id \<noteq> Some []
      then (case update_checkpoint w (source_type_of (extractor_cls ex)) last_id None
                   (Some [(''records_processed'', PInt (records_loaded (stats ex)))]) of
              (Inl e, w1) \<Rightarrow> (Some e, w1)
            | (Inr written, w1) \<Rightarrow> (None, w1))
      else (None, w))"

text \<open>
  \<open>run\<close>. The checkpoint read and \<open>start_run\<close> come before the \<open>try\<close>, so their
  exceptions leave at once. The checkpoint is written after the loop, when the
  generator is exhausted; an exception of that write is handled like one of the
  generator.
\<close>

definition run ::
  "pylib \<Rightarrow> extractor \<Rightarrow> world \<Rightarrow> string \<Rightarrow> extraction
     \<Rightarrow> (exn + pydict) \<times> extractor \<times> world" where
  "run lib ex w uuid extracted =
     (case get_checkpoint w (source_type_of (extractor_cls ex)) of
        (Inl e, w1) \<Rightarrow> (Inl e, ex, w1)
      | (Inr checkpoint, w1) \<Rightarrow>
     (case start_run w1 (source_type_of (extractor_cls ex))
             (Some [(''checkpoint'', checkpoint_info lib checkpoint)]) uuid of
        (Inl e, w2) \<Rightarrow> (Inl e, ex, w2)
      | (Inr run, w2) \<Rightarrow>
     (case foldl (process_record lib) (ex, w2, None) (fst extracted) of
        (ex1, w3, last_id) \<Rightarrow>
     (case snd extracted of
        Some e \<Rightarrow> fail_run lib ex1 w3 run e
      | None \<Rightarrow>
     (case write_checkpoint ex1 w3 last_id of
        (Some e, w4) \<Rightarrow> fail_run lib ex1 w4 run e
      | (None, w4) \<Rightarrow>
          (let final_status = (if records_failed (stats ex1) = 0 then SUCCESS else PARTIAL)
           in case complete_run lib w4 run final_status (stats ex1) None
                     (Some [(''last_source_id'',
                              (case last_id of None \<Rightarrow> PNone | Some s \<Rightarrow> PStr s))]) None of
                (Inl e, w5) \<Rightarrow> (Inl e, ex1, w5)
              | (Inr run', w5) \<Rightarrow> (Inr (run_result run' ex1 final_status), ex1, w5)))))))"

section \<open>Failure injection (ingestion/orchestrator.py)\<close>

text \<open>
  \<open>failing_extract\<close> wraps the generator of the extractor: it counts the records it
  pulls and raises \<open>ETLException\<close> instead of yielding record number
  \<open>fail_at_record\<close>. The second component is \<open>record_count\<close> when the generator ends.
  A count never equals a \<open>fail_at_record\<close> below 1, and a generator that ends (or
  fails) before that record is passed through.
\<close>

definition failing_extract :: "int \<Rightarrow> extraction \<Rightarrow> extraction \<times> int" where
  "failing_extract fail_at_record original =
     (if 1 \<le> fail_at_record \<and> fail_at_record \<le> int (length (fst original))
      then ((take (nat (fail_at_record - 1)) (fst original),
             Some (Exn ETLException
                     (''Injected failure at record '' @ str_int fail_at_record))),
            fail_at_record)
      else (original, int (length (fst original))))"

text \<open>
  \<open>run_with_failure_injection\<close>: \<open>transforms\<close> gives each class its \<open>transform\<close>, and
  \<open>original\<close> is what the extractor's own \<open>extract()\<close> produces. An \<open>ETLException\<close>
  (or a subclass) that leaves \<open>run\<close> becomes the \<open>failed_injection\<close> result; the
  session's context manager then commits. Any other exception leaves the function.
\<close>

definition run_with_failure_injection ::
  "pylib \<Rightarrow> (extractor_class \<Rightarrow> pydict \<Rightarrow> exn + pydict) \<Rightarrow> world \<Rightarrow> string \<Rightarrow> int \<Rightarrow> string
     \<Rightarrow> extraction \<Rightarrow> (exn + pydict) \<times> world" where
  "run_with_failure_injection lib transforms w uuid fail_at_record source_type original =
     (let c = (if source_type = ''csv'' then CSVExtractor
               else if source_type = ''api'' then APIExtractor
               else RSSExtractor);
          ex = extractor_init c (transforms c);
          (injected, record_count) = failing_extract fail_at_record original
      in case run lib ex w uuid injected of
           (Inr result, ex1, w1) \<Rightarrow>
             (case db_call w1 of
                (Some e, w2) \<Rightarrow> (Inl e, w2)
              | (None, w2) \<Rightarrow> (Inr result, w2))
         | (Inl e, ex1, w1) \<Rightarrow>
             if is_ETLException (exn_cls e)
             then (case db_call w1 of
                     (Some e', w2) \<Rightarrow> (Inl e', w2)
                   | (None, w2) \<Rightarrow>
                       (Inr [(''status'', PStr ''failed_injection''),
                             (''records_before_failure'', PInt (record_count - 1)),
                             (''error'', PStr (exn_str e))], w2))
             else (Inl e, w1))"

section \<open>Scenarios\<close>

text \<open>
  The dual upsert on its own: \<open>load_raw\<close>, \<open>transform\<close>, \<open>load_unified\<close> for one record,
  as the loop body of \<open>run\<close> performs them, and the same over a list of records.
\<close>

definition dual_upsert :: "pylib \<Rightarrow> extractor \<Rightarrow> world \<Rightarrow> pydict \<Rightarrow> world" where
  "dual_upsert lib ex w raw =
     (case load_raw lib ex w raw of
        (Inl e, w1) \<Rightarrow> w1
      | (Inr raw_id, w1) \<Rightarrow>
          (case transform ex raw of
             Inl e \<Rightarrow> w1
           | Inr transformed \<Rightarrow> snd (load_unified lib ex w1 transformed raw_id)))"

definition upsert_all :: "pylib \<Rightarrow> extractor \<Rightarrow> world \<Rightarrow> pydict list \<Rightarrow> world" where
  "upsert_all lib ex w raws = foldl (dual_upsert lib ex) w raws"

text \<open>
  The source ids of the extractor do not depend on when they are computed: the class
  does not put the date into the id, or the clock shows one date at every reading.
\<close>

definition same_day :: "pylib \<Rightarrow> extractor \<Rightarrow> world \<Rightarrow> bool" where
  "same_day lib ex w =
     (extractor_cls ex = CSVExtractor \<or> extractor_cls ex = RSSExtractor
      \<or> (\<forall>n. strftime_ymd lib (clock w n) = strftime_ymd lib (clock w 0)))"

text \<open>
  An empty store whose clock advances by one second per reading from the given time
  and whose calls never fail; two CSV rows as the CSV extractor yields them; a
  transform that maps the name to the title and rejects a row without a name.
\<close>

definition empty_store :: "datetime \<Rightarrow> world" where
  "empty_store start =
     \<lparr> etl_checkpoints = Map.empty, etl_runs = Map.empty,
       raw_data = (\<lambda>t. []), raw_seq = (\<lambda>t. 1),
       unified_data = [], unified_seq = 1, schema_drift = [],
       clock = (\<lambda>n. start + 1000000 * int n), ticks = 0,
       fault_plan = (\<lambda>n. None), db_calls = 0 \<rparr>"

definition csv_row :: "int \<Rightarrow> string \<Rightarrow> pydict" where
  "csv_row n name =
     [(''name'', PStr name), (''_row_number'', PInt n), (''_source_file'', PStr ''f.csv'')]"

definition title_of_name :: "pydict \<Rightarrow> exn + pydict" where
  "title_of_name raw =
     (case map_of raw ''name'' of
        Some (PStr s) \<Rightarrow> Inr [(''title'', PStr s)]
      | _ \<Rightarrow> Inl (Exn Exception ''name''))"

definition example_transforms :: "extractor_class \<Rightarrow> pydict \<Rightarrow> exn + pydict" where
  "example_transforms c = title_of_name"

definition csv_extractor :: extractor where
  "csv_extractor = (extractor_init CSVExtractor title_of_name)\<lparr>drift_detector := None\<rparr>"

definition api_extractor :: extractor where
  "api_extractor =
     (extractor_init APIExtractor (\<lambda>raw. Inr [(''title'', dict_get raw ''name'' PNone)]))
       \<lparr>drift_detector := None\<rparr>"

text \<open>
  \<open>frame w w'\<close>: a step from \<open>w\<close> to \<open>w'\<close> left the checkpoint and run tables as they
  were, and (as every step does) the two oracles.
\<close>

definition frame :: "world \<Rightarrow> world \<Rightarrow> bool" where
  "frame w w' =
     (etl_checkpoints w' = etl_checkpoints w \<and> etl_runs w' = etl_runs w
      \<and> fault_plan w' = fault_plan w \<and> clock w' = clock w)"

text \<open>
  A store with a CSV checkpoint at \<open>test:50\<close>, one with a CSV checkpoint at
  \<open>f.csv:9\<close>, and a store whose second database call fails.
\<close>

definition checkpoint_at :: "string \<Rightarrow> ETLCheckpoint" where
  "checkpoint_at source_id =
     \<lparr> cp_source_type = CSV, last_source_id = Some source_id, last_processed_at = Some 5,
       last_offset = 50, checkpoint_metadata = None, cp_updated_at = 5 \<rparr>"

definition store_at :: "string \<Rightarrow> world" where
  "store_at source_id = (empty_store 100)\<lparr>etl_checkpoints := [CSV \<mapsto> checkpoint_at source_id]\<rparr>"

definition flaky_store :: world where
  "flaky_store =
     (empty_store 0)\<lparr>fault_plan := (\<lambda>n. if n = 1 then Some ''connection lost'' else None)\<rparr>"

text \<open>
  Three CSV rows; the run over them with a failure injected at record 3, and the run
  over the first two on a store whose checkpoint is already past them.
\<close>

definition three_rows :: "pydict list" where
  "three_rows = [csv_row 1 ''a'', csv_row 2 ''b'', csv_row 3 ''c'']"

definition injected_run :: "(exn + pydict) \<times> extractor \<times> world" where
  "injected_run =
     run example_lib csv_extractor (empty_store 0) ''run-1''
       (fst (failing_extract 3 (three_rows, None)))"

definition skipping_run :: "(exn + pydict) \<times> extractor \<times> world" where
  "skipping_run =
     run example_lib csv_extractor (store_at ''f.csv:9'') ''run-2''
       ([csv_row 1 ''a'', csv_row 2 ''b''], None)"






text \<open>
  For the idempotence of the dual upsert: the source ids and keys of a raw table in
  row order, the source id an extractor computes at the first clock reading, and what
  a record that went through the dual upsert leaves behind (its raw row, and the
  unified row of that raw row's key if its transform succeeds).
\<close>

definition raw_index :: "world \<Rightarrow> raw_table \<Rightarrow> (string \<times> int) list" where
  "raw_index w tbl = map (\<lambda>r. (raw_source_id r, raw_pk r)) (raw_data w tbl)"

definition source_id_at_start :: "pylib \<Rightarrow> extractor \<Rightarrow> world \<Rightarrow> pydict \<Rightarrow> string" where
  "source_id_at_start lib ex w raw = fst (get_source_id lib ex (w\<lparr>ticks := 0\<rparr>) raw)"

definition settled :: "pylib \<Rightarrow> extractor \<Rightarrow> world \<Rightarrow> pydict \<Rightarrow> bool" where
  "settled lib ex w raw =
     (case map_of (raw_index w (raw_table_of (extractor_cls ex)))
             (source_id_at_start lib ex w raw) of
        None \<Rightarrow> False
      | Some pk \<Rightarrow>
          (case transform ex raw of
             Inl e \<Rightarrow> True
           | Inr transformed \<Rightarrow>
               (source_type_of (extractor_cls ex), str_int pk)
                 \<in> set (map unified_key (unified_data w))))"

text \<open>One coin of the API source, ingested shortly before and after midnight UTC.\<close>

definition bitcoin :: pydict where
  "bitcoin = [(''id'', PStr ''btc-bitcoin''), (''name'', PStr ''Bitcoin'')]"

definition before_midnight :: world where
  "before_midnight = empty_store 86399000000"

section \<open>Evaluating the renderings\<close>

lemma str_nat_digit: "n < 10 \<Longrightarrow> str_nat n = [digit_char n]"
  by (simp add: str_nat.simps[of n])

lemma str_nat_more: "10 \<le> n \<Longrightarrow> str_nat n = str_nat (n div 10) @ [digit_char (n mod 10)]"
  by (simp add: str_nat.simps[of n])

lemmas str_int_eval = str_int_def str_nat_digit str_nat_more digit_char_def

section \<open>Properties of the rate limiter\<close>

lemma get_state_Some: "states rl k = Some s \<Longrightarrow> get_state rl k t = (s, rl)"
  by (simp add: get_state_def)

lemma float_limits: "DBL_MAX < 2 ^ 1024 - 2 ^ 970"
proof -
  have "(2::real) ^ 970 < 2 ^ 971" by (rule power_strict_increasing) simp_all
  then show ?thesis by (simp add: DBL_MAX_def)
qed

lemma float_pow_one: "float_pow x 1 = Inr x"
  using float_limits by (simp add: float_pow_def)

lemma float_pow_finite:
  assumes "x \<noteq> 0 \<or> 0 \<le> n" and "\<bar>x powi n\<bar> \<le> 2 ^ 1023"
  shows "float_pow x n = Inr (x powi n)"
proof -
  have "(2::real) ^ 1023 + 2 ^ 970 < 2 ^ 1023 + 2 ^ 1023"
    by (rule add_strict_left_mono, rule power_strict_increasing) simp_all
  moreover have "(2::real) ^ 1023 + 2 ^ 1023 = 2 ^ 1024" by simp
  ultimately have "\<bar>x powi n\<bar> < 2 ^ 1024 - 2 ^ 970" using assms(2) by linarith
  then show ?thesis using assms(1) by (auto simp add: float_pow_def)
qed

text \<open>The powers of 2.0: a double up to the exponent 1023, an overflow from 1024 on.\<close>

lemma float_pow_two:
  "float_pow 2 (int k) =
     (if k < 1024 then Inr (2 ^ k)
      else Inl (Exn OverflowError (''(34, '' @ [CHR 0x27] @ ''Numerical result out of range''
                                    @ [CHR 0x27] @ '')'')))"
proof -
  have two: "\<bar>2::real\<bar> \<le> DBL_MAX"
  proof -
    have "(2::real) ^ 971 + 2 ^ 1 \<le> 2 ^ 971 + 2 ^ 971"
      by (rule add_left_mono, rule power_increasing) simp_all
    also have "\<dots> = 2 ^ 972" by simp
    also have "\<dots> \<le> 2 ^ 1024" by (rule power_increasing) simp_all
    finally show ?thesis by (simp add: DBL_MAX_def)
  qed
  show ?thesis
  proof (cases "k < 1024")
    case True
    then have "(2::real) ^ k \<le> 2 ^ 1023" by (intro power_increasing) simp_all
    moreover have "(2::real) ^ 1023 + 2 ^ 970 < 2 ^ 1023 + 2 ^ 1023"
      by (rule add_strict_left_mono, rule power_strict_increasing) simp_all
    moreover have "(2::real) ^ 1023 + 2 ^ 1023 = 2 ^ 1024" by simp
    ultimately have "(2::real) ^ k < 2 ^ 1024 - 2 ^ 970" by linarith
    then show ?thesis using True by (simp add: float_pow_def)
  next
    case False
    then have "(2::real) ^ 1024 \<le> 2 ^ k" by (intro power_increasing) simp_all
    moreover have "(0::real) < 2 ^ 970" by simp
    ultimately have "(2::real) ^ 1024 - 2 ^ 970 \<le> 2 ^ k" by linarith
    then show ?thesis using False two by (simp add: float_pow_def)
  qed
qed

lemma record_failure_Some:
  assumes "states rl k = Some s"
  shows "record_failure rl k t =
     (if retry_count s + 1 > max_retries rl
      then (Inl (Exn RateLimitError
                  (''Max retries ('' @ str_int (max_retries rl) @ '') exceeded for '' @ k)),
            rl\<lparr>states := (states rl)(k \<mapsto> s\<lparr>retry_count := retry_count s + 1\<rparr>)\<rparr>)
      else (case float_pow (backoff_base rl) (retry_count s + 1) of
              Inl e \<Rightarrow>
                (Inl e, rl\<lparr>states := (states rl)(k \<mapsto> s\<lparr>retry_count := retry_count s + 1\<rparr>)\<rparr>)
            | Inr b \<Rightarrow>
                (Inr b, rl\<lparr>states := (states rl)(k \<mapsto> s\<lparr>retry_count := retry_count s + 1,
                                                          current_backoff := b\<rparr>)\<rparr>)))"
  using assms by (simp add: record_failure_def get_state_Some Let_def split: sum.splits)

lemma record_failure_None:
  assumes "states rl k = None"
  shows "record_failure rl k t =
         record_failure (rl\<lparr>states := (states rl)(k \<mapsto> new_state t)\<rparr>) k t"
  using assms by (simp add: record_failure_def get_state_def Let_def)

text \<open>
  Whatever a call returns or raises, it leaves the counter one higher and the settings
  as they were.
\<close>

lemma record_failure_state:
  assumes "states rl k = Some s"
  shows "\<exists>s'. states (snd (record_failure rl k t)) k = Some s'
            \<and> retry_count s' = retry_count s + 1
            \<and> max_retries (snd (record_failure rl k t)) = max_retries rl
            \<and> backoff_base (snd (record_failure rl k t)) = backoff_base rl"
  by (simp add: record_failure_Some[OF assms] split: sum.splits)

text \<open>
  From a state whose counter is \<open>c\<close>, call number \<open>i + 1\<close> raises the base to the power
  \<open>c + i + 1\<close> as long as that count is within \<open>max_retries\<close>, and raises
  \<open>RateLimitError\<close> afterwards.
\<close>

lemma record_failures_nth:
  assumes "states rl k = Some s" "i < length ts"
  shows "fst (record_failures rl k ts) ! i =
     (if retry_count s + int i + 1 \<le> max_retries rl
      then float_pow (backoff_base rl) (retry_count s + int i + 1)
      else Inl (Exn RateLimitError
                 (''Max retries ('' @ str_int (max_retries rl) @ '') exceeded for '' @ k)))"
  using assms
proof (induction ts arbitrary: rl s i)
  case Nil
  then show ?case by simp
next
  case (Cons t ts)
  let ?rl1 = "snd (record_failure rl k t)"
  obtain s1 where st1: "states ?rl1 k = Some s1"
    and rc: "retry_count s1 = retry_count s + 1"
    and mr: "max_retries ?rl1 = max_retries rl"
    and bb: "backoff_base ?rl1 = backoff_base rl"
    using record_failure_state[OF Cons.prems(1)] by blast
  show ?case
  proof (cases i)
    case 0
    then show ?thesis
      by (simp add: record_failure_Some[OF Cons.prems(1)] split_beta split: sum.splits)
  next
    case (Suc j)
    have j: "j < length ts" using Suc Cons.prems(2) by simp
    have "fst (record_failures rl k (t # ts)) ! i = fst (record_failures ?rl1 k ts) ! j"
      using Suc by (simp add: split_beta Let_def)
    also have "\<dots> = (if retry_count s1 + int j + 1 \<le> max_retries ?rl1
      then float_pow (backoff_base ?rl1) (retry_count s1 + int j + 1)
      else Inl (Exn RateLimitError
                 (''Max retries ('' @ str_int (max_retries ?rl1) @ '') exceeded for '' @ k)))"
      by (rule Cons.IH[OF st1 j])
    finally show ?thesis using Suc by (simp add: rc mr bb add.assoc)
  qed
qed

text \<open>
  Claim C4. On a limiter whose backoff base is 2.0 and a source key it has no state
  for, the \<open>k\<close>-th consecutive \<open>record_failure\<close> returns \<open>2^k\<close> while \<open>k\<close> is at most
  \<open>max_retries\<close> and \<open>2^k\<close> is a double, that is for \<open>k\<close> up to 1023; every call after
  the \<open>max_retries\<close>-th, the first of them being the one whose counter exceeds
  \<open>max_retries\<close>, raises \<open>RateLimitError\<close> with the message
  \<open>Max retries (N) exceeded for <source key>\<close> and returns no backoff. A limiter with
  \<open>max_retries\<close> of 1024 or more gets that far only through the \<open>OverflowError\<close> that
  \<open>2.0 ** k\<close> raises from the 1024th call on.
\<close>

theorem record_failure_backoff:
  assumes "backoff_base rl = 2" and "states rl source_key = None"
      and "1 \<le> k" and "k \<le> length ts"
  shows "fst (record_failures rl source_key ts) ! (k - 1) =
     (if int k \<le> max_retries rl
      then if k < 1024 then Inr (2 ^ k)
           else Inl (Exn OverflowError (''(34, '' @ [CHR 0x27]
                       @ ''Numerical result out of range'' @ [CHR 0x27] @ '')''))
      else Inl (Exn RateLimitError
             (''Max retries ('' @ str_int (max_retries rl) @ '') exceeded for '' @ source_key)))"
proof -
  obtain t ts' where ts: "ts = t # ts'" using assms(3,4) by (cases ts) auto
  let ?rl0 = "rl\<lparr>states := (states rl)(source_key \<mapsto> new_state t)\<rparr>"
  have "record_failures rl source_key ts = record_failures ?rl0 source_key ts"
    using record_failure_None[OF assms(2)] by (simp add: ts)
  moreover have "fst (record_failures ?rl0 source_key ts) ! (k - 1) =
     (if retry_count (new_state t) + int (k - 1) + 1 \<le> max_retries ?rl0
      then float_pow (backoff_base ?rl0) (retry_count (new_state t) + int (k - 1) + 1)
      else Inl (Exn RateLimitError
             (''Max retries ('' @ str_int (max_retries ?rl0) @ '') exceeded for '' @ source_key)))"
    by (rule record_failures_nth) (use assms in \<open>simp_all add: new_state_def\<close>)
  moreover have "retry_count (new_state t) + int (k - 1) + 1 = int k"
    using assms(3) by (simp add: new_state_def)
  ultimately show ?thesis using assms(1) float_pow_two[of k] by simp
qed

text \<open>
  The limiter of \<open>test_backoff_increases_exponentially\<close> with four retries: the calls
  return 2, 4, 8, 16 and the fifth raises, naming the key \<open>test\<close>. On a limiter with
  2000 retries the 1024th call in a row raises \<open>OverflowError\<close>.
\<close>

theorem record_failure_backoff_witness:
  "backoff_base four_retries = 2
   \<and> states four_retries ''test'' = None
   \<and> fst (record_failures four_retries ''test'' [0, 1, 3, 7, 15]) ! (4 - 1) = Inr 16
   \<and> fst (record_failures four_retries ''test'' [0, 1, 3, 7, 15]) ! (5 - 1)
       = Inl (Exn RateLimitError ''Max retries (4) exceeded for test'')
   \<and> map_sum exn_cls id
       (fst (record_failures two_thousand_retries ''test'' (replicate 1024 0)) ! (1024 - 1))
       = Inl OverflowError"
proof -
  have b: "backoff_base four_retries = 2" and s: "states four_retries ''test'' = None"
    and m: "max_retries four_retries = 4"
    by (simp_all add: four_retries_def RateLimiter_init_def)
  have b': "backoff_base two_thousand_retries = 2"
    and s': "states two_thousand_retries ''test'' = None"
    and m': "max_retries two_thousand_retries = 2000"
    by (simp_all add: two_thousand_retries_def RateLimiter_init_def)
  have n4: "str_int 4 = ''4''"
    by (simp add: str_int_eval)
  have k4: "fst (record_failures four_retries ''test'' [0, 1, 3, 7, 15]) ! (4 - 1) = Inr 16"
    using record_failure_backoff[OF b s, of 4 "[0, 1, 3, 7, 15]"] m by simp
  have k5: "fst (record_failures four_retries ''test'' [0, 1, 3, 7, 15]) ! (5 - 1)
       = Inl (Exn RateLimitError ''Max retries (4) exceeded for test'')"
    using record_failure_backoff[OF b s, of 5 "[0, 1, 3, 7, 15]"] m n4 by simp
  have l: "(1::nat) \<le> 1024" "1024 \<le> length (replicate 1024 (0::real))" by simp_all
  have k1024: "map_sum exn_cls id
       (fst (record_failures two_thousand_retries ''test'' (replicate 1024 0)) ! (1024 - 1))
       = Inl OverflowError"
    unfolding record_failure_backoff[OF b' s' l] m' by simp
  from b s k4 k5 k1024 show ?thesis by simp
qed

lemma check_in_window:
  assumes "states rl k = Some s" "t_reset - window_start s < 60"
  shows "check_rate_limit rl k t_new t_reset t_wait =
     (if requests_made s \<ge> requests_per_minute rl
      then max 0 (60 - (t_wait - window_start s)) else 0, rl)"
proof -
  have "(states rl)(k \<mapsto> s) = states rl" using assms(1) by (simp add: fun_upd_idem)
  then show ?thesis using assms
    by (simp add: check_rate_limit_def get_state_Some reset_window_if_needed_def Let_def)
qed

lemma check_after_window:
  assumes "states rl k = Some s" "60 \<le> t_reset - window_start s" "0 < requests_per_minute rl"
  shows "check_rate_limit rl k t_new t_reset t_wait =
     (0, rl\<lparr>states := (states rl)(k \<mapsto> s\<lparr>requests_made := 0, window_start := t_reset,
              retry_count := 0, current_backoff := 0\<rparr>)\<rparr>)"
  using assms
  by (simp add: check_rate_limit_def get_state_Some reset_window_if_needed_def Let_def)

lemma record_request_Some:
  assumes "states rl k = Some s"
  shows "record_request rl k t_new t_req =
     rl\<lparr>states := (states rl)(k \<mapsto> s\<lparr>requests_made := requests_made s + 1,
                                        last_request_time := t_req\<rparr>)\<rparr>"
  using assms by (simp add: record_request_def get_state_Some Let_def)

text \<open>
  Inside the window nothing but the request counter moves: round \<open>i\<close> is admitted
  exactly when the count of earlier admissions is below the limit.
\<close>

lemma admit_requests_nth:
  assumes "states rl k = Some s"
      and "\<forall>c \<in> set cs. at_reset c - window_start s < 60 \<and> at_wait c - window_start s < 60"
      and "i < length cs"
  shows "fst (admit_requests rl k cs) ! i =
     (if requests_made s + int i < requests_per_minute rl then 0
      else 60 - (at_wait (cs ! i) - window_start s))"
  using assms
proof (induction cs arbitrary: rl s i)
  case Nil
  then show ?case by simp
next
  case (Cons c cs)
  have inw: "at_reset c - window_start s < 60" "at_wait c - window_start s < 60"
    using Cons.prems(2) by simp_all
  have chk: "check_rate_limit rl k (at_new c) (at_reset c) (at_wait c) =
     (if requests_made s \<ge> requests_per_minute rl
      then 60 - (at_wait c - window_start s) else 0, rl)"
    using check_in_window[OF Cons.prems(1) inw(1)] inw(2) by (simp add: max_def)
  show ?case
  proof (cases "requests_made s < requests_per_minute rl")
    case True
    let ?s1 = "s\<lparr>requests_made := requests_made s + 1, last_request_time := at_request c\<rparr>"
    let ?rl2 = "rl\<lparr>states := (states rl)(k \<mapsto> ?s1)\<rparr>"
    have unf: "admit_requests rl k (c # cs) =
        (0 # fst (admit_requests ?rl2 k cs), snd (admit_requests ?rl2 k cs))"
      using True chk record_request_Some[OF Cons.prems(1)] by (simp add: split_beta Let_def)
    show ?thesis
    proof (cases i)
      case 0
      then show ?thesis using True unf by simp
    next
      case (Suc j)
      have "fst (admit_requests ?rl2 k cs) ! j =
          (if requests_made ?s1 + int j < requests_per_minute ?rl2 then 0
           else 60 - (at_wait (cs ! j) - window_start ?s1))"
        by (rule Cons.IH) (use Cons.prems Suc in simp_all)
      then show ?thesis using Suc unf by (simp add: add.commute add.left_commute)
    qed
  next
    case False
    have pos: "60 - (at_wait c - window_start s) \<noteq> 0" using inw(2) by simp
    have unf: "admit_requests rl k (c # cs) =
        ((60 - (at_wait c - window_start s)) # fst (admit_requests rl k cs),
         snd (admit_requests rl k cs))"
      using False chk pos by (simp add: split_beta Let_def)
    show ?thesis
    proof (cases i)
      case 0
      then show ?thesis using False unf by simp
    next
      case (Suc j)
      have "fst (admit_requests rl k cs) ! j =
          (if requests_made s + int j < requests_per_minute rl then 0
           else 60 - (at_wait (cs ! j) - window_start s))"
        by (rule Cons.IH) (use Cons.prems Suc in simp_all)
      then show ?thesis using Suc unf False by simp
    qed
  qed
qed

lemma admit_requests_fresh:
  assumes "states rl k = None" "cs \<noteq> []"
  shows "admit_requests rl k cs =
         admit_requests (rl\<lparr>states := (states rl)(k \<mapsto> new_state (at_new (hd cs)))\<rparr>) k cs"
proof -
  obtain c cs' where cs: "cs = c # cs'" using assms(2) by (cases cs) auto
  have "check_rate_limit rl k (at_new c) (at_reset c) (at_wait c) =
        check_rate_limit (rl\<lparr>states := (states rl)(k \<mapsto> new_state (at_new c))\<rparr>) k
          (at_new c) (at_reset c) (at_wait c)"
    using assms(1) by (simp add: check_rate_limit_def get_state_def Let_def)
  then show ?thesis by (simp add: cs)
qed

text \<open>
  Claim C5. A limiter configured for \<open>N > 0\<close> requests per minute and a key it has no
  state for: the window starts at the first clock reading (the one that stamps the new
  state). When every admitted request is recorded and every later reading of the
  rounds is less than 60 seconds after that start, round \<open>i\<close> (counted from 0) gets the
  wait 0 if \<open>i < N\<close> and a positive wait if \<open>i \<ge> N\<close>. And whenever \<open>check_rate_limit\<close>
  finds the clock 60 seconds or more after the window start of the key's state, it
  returns 0 and restarts the window at that reading with the request count 0.
\<close>

theorem check_rate_limit_window:
  assumes "0 < requests_per_minute rl"
  shows "(states rl source_key = None \<and> i < length cs \<and>
           (\<forall>c \<in> set cs. at_reset c - at_new (hd cs) < 60 \<and> at_wait c - at_new (hd cs) < 60)
          \<longrightarrow> (int i < requests_per_minute rl
                  \<longrightarrow> fst (admit_requests rl source_key cs) ! i = 0)
            \<and> (requests_per_minute rl \<le> int i
                  \<longrightarrow> 0 < fst (admit_requests rl source_key cs) ! i))
       \<and> (states rl source_key = Some s \<and> 60 \<le> t_reset - window_start s
          \<longrightarrow> fst (check_rate_limit rl source_key t_new t_reset t_wait) = 0
            \<and> states (snd (check_rate_limit rl source_key t_new t_reset t_wait)) source_key
                = Some (s\<lparr>requests_made := 0, window_start := t_reset,
                          retry_count := 0, current_backoff := 0\<rparr>))"
proof (intro conjI impI)
  assume a: "states rl source_key = None \<and> i < length cs \<and>
      (\<forall>c \<in> set cs. at_reset c - at_new (hd cs) < 60 \<and> at_wait c - at_new (hd cs) < 60)"
  then have ne: "cs \<noteq> []" by auto
  let ?rl0 = "rl\<lparr>states := (states rl)(source_key \<mapsto> new_state (at_new (hd cs)))\<rparr>"
  have nth: "fst (admit_requests rl source_key cs) ! i =
     (if requests_made (new_state (at_new (hd cs))) + int i < requests_per_minute ?rl0 then 0
      else 60 - (at_wait (cs ! i) - window_start (new_state (at_new (hd cs)))))"
    unfolding admit_requests_fresh[OF conjunct1[OF a] ne]
    by (rule admit_requests_nth) (use a in \<open>simp_all add: new_state_def\<close>)
  { assume "int i < requests_per_minute rl"
    then show "fst (admit_requests rl source_key cs) ! i = 0"
      using nth by (simp add: new_state_def) }
  { assume "requests_per_minute rl \<le> int i"
    moreover have "at_wait (cs ! i) - at_new (hd cs) < 60" using a by simp
    ultimately show "0 < fst (admit_requests rl source_key cs) ! i"
      using nth by (simp add: new_state_def) }
next
  assume b: "states rl source_key = Some s \<and> 60 \<le> t_reset - window_start s"
  show "fst (check_rate_limit rl source_key t_new t_reset t_wait) = 0"
    using check_after_window[OF conjunct1[OF b] conjunct2[OF b] assms] by simp
  show "states (snd (check_rate_limit rl source_key t_new t_reset t_wait)) source_key
        = Some (s\<lparr>requests_made := 0, window_start := t_reset,
                  retry_count := 0, current_backoff := 0\<rparr>)"
    using check_after_window[OF conjunct1[OF b] conjunct2[OF b] assms] by simp
qed

text \<open>
  Two requests per minute: rounds at 0 s and 10 s are admitted, rounds at 20 s and 59 s
  must wait 40 s and 1 s, and at 61 s the limiter admits again.
\<close>

theorem check_rate_limit_window_witness:
  "0 < requests_per_minute two_per_minute
   \<and> fst (admit_requests two_per_minute ''test''
            [at_time 0, at_time 10, at_time 20, at_time 59]) = [0, 0, 40, 1]
   \<and> 0 < fst (admit_requests two_per_minute ''test''
                [at_time 0, at_time 10, at_time 20, at_time 59]) ! 3
   \<and> fst (check_rate_limit
            (snd (admit_requests two_per_minute ''test'' [at_time 0, at_time 10, at_time 20]))
            ''test'' 61 61 61) = 0"
proof -
  have pos: "0 < requests_per_minute two_per_minute"
    by (simp add: two_per_minute_def RateLimiter_init_def)
  have run: "admit_requests two_per_minute ''test'' [at_time 0, at_time 10, at_time 20] =
        ([0, 0, 40], two_per_minute\<lparr>states := [''test'' \<mapsto>
            \<lparr> requests_made = 2, window_start = 0, current_backoff = 0,
              retry_count = 0, last_request_time = 10 \<rparr>]\<rparr>)"
    by (simp add: two_per_minute_def RateLimiter_init_def at_time_def check_rate_limit_def
        record_request_def get_state_def new_state_def reset_window_if_needed_def Let_def)
  have all: "fst (admit_requests two_per_minute ''test''
                   [at_time 0, at_time 10, at_time 20, at_time 59]) = [0, 0, 40, 1]"
    by (simp add: two_per_minute_def RateLimiter_init_def at_time_def check_rate_limit_def
        record_request_def get_state_def new_state_def reset_window_if_needed_def Let_def)
  have third: "0 < fst (admit_requests two_per_minute ''test''
                         [at_time 0, at_time 10, at_time 20, at_time 59]) ! 3"
    using check_rate_limit_window[OF pos, of "''test''" 3
        "[at_time 0, at_time 10, at_time 20, at_time 59]"]
    by (simp add: two_per_minute_def RateLimiter_init_def at_time_def)
  have reset: "fst (check_rate_limit
            (snd (admit_requests two_per_minute ''test'' [at_time 0, at_time 10, at_time 20]))
            ''test'' 61 61 61) = 0"
    unfolding run
    by (simp add: check_rate_limit_def get_state_def reset_window_if_needed_def Let_def
        two_per_minute_def RateLimiter_init_def)
  from pos all third reset show ?thesis by simp
qed

lemma check_after_window_state:
  assumes "states rl k = Some s" "60 \<le> t_reset - window_start s"
  shows "states (snd (check_rate_limit rl k t_new t_reset t_wait)) k =
     Some (s\<lparr>requests_made := 0, window_start := t_reset,
             retry_count := 0, current_backoff := 0\<rparr>)"
    and "max_retries (snd (check_rate_limit rl k t_new t_reset t_wait)) = max_retries rl"
    and "backoff_base (snd (check_rate_limit rl k t_new t_reset t_wait)) = backoff_base rl"
  using assms
  by (simp_all add: check_rate_limit_def get_state_Some reset_window_if_needed_def Let_def)

lemma record_failure_first:
  assumes "states rl k = Some s" "retry_count s = 0" "1 \<le> max_retries rl"
  shows "fst (record_failure rl k t) = Inr (backoff_base rl)"
  using assms by (simp add: record_failure_def get_state_Some Let_def float_pow_one)

text \<open>
  Claim C9. When \<open>check_rate_limit\<close> runs for a key whose window started 60 seconds or
  more before the reading of \<open>_reset_window_if_needed\<close>, the state it leaves has retry
  counter 0 and backoff 0, although \<open>record_success\<close> was never called; the next
  \<open>record_failure\<close> (on a limiter that allows at least one retry) returns
  \<open>backoff_base ^ 1\<close>. \<open>wait_if_needed\<close> leaves the same limiter state as the
  \<open>check_rate_limit\<close> it wraps.
\<close>

theorem window_reset_clears_retries:
  assumes "states rl source_key = Some s"
      and "60 \<le> t_reset - window_start s"
      and "1 \<le> max_retries rl"
  shows "(\<exists>s'. states (snd (check_rate_limit rl source_key t_new t_reset t_wait)) source_key
                 = Some s'
              \<and> retry_count s' = 0 \<and> current_backoff s' = 0)
       \<and> fst (record_failure (snd (check_rate_limit rl source_key t_new t_reset t_wait))
                source_key t)
            = Inr (backoff_base rl ^ 1)
       \<and> snd (wait_if_needed rl source_key t_new t_reset t_wait)
            = snd (check_rate_limit rl source_key t_new t_reset t_wait)"
proof -
  let ?rl' = "snd (check_rate_limit rl source_key t_new t_reset t_wait)"
  let ?s' = "s\<lparr>requests_made := 0, window_start := t_reset,
               retry_count := 0, current_backoff := 0\<rparr>"
  have st: "states ?rl' source_key = Some ?s'"
    by (rule check_after_window_state(1)[OF assms(1,2)])
  have mr: "1 \<le> max_retries ?rl'"
    using check_after_window_state(2)[OF assms(1,2)] assms(3) by simp
  have "fst (record_failure ?rl' source_key t) = Inr (backoff_base ?rl')"
    by (rule record_failure_first[OF st _ mr]) simp
  then have rf: "fst (record_failure ?rl' source_key t) = Inr (backoff_base rl ^ 1)"
    using check_after_window_state(3)[OF assms(1,2)] by simp
  have wi: "snd (wait_if_needed rl source_key t_new t_reset t_wait) = ?rl'"
    by (simp add: wait_if_needed_def split_beta)
  from st rf wi show ?thesis by simp
qed

text \<open>
  A key with three failures behind it (base 3, so the next backoff would be 81): after
  a \<open>check_rate_limit\<close> 61 seconds into the window the next failure backs off by 3.
\<close>

theorem window_reset_clears_retries_witness:
  "states failing_limiter ''api'' \<noteq> None
   \<and> (60::real) \<le> 161 - 100
   \<and> 1 \<le> max_retries failing_limiter
   \<and> fst (record_failure (snd (check_rate_limit failing_limiter ''api'' 161 161 161))
            ''api'' 162) = Inr 3
   \<and> fst (record_failure failing_limiter ''api'' 130) = Inr 81"
proof -
  have st: "states failing_limiter ''api'' =
      Some \<lparr> requests_made = 7, window_start = 100, current_backoff = 27,
             retry_count = 3, last_request_time = 130 \<rparr>"
    by (simp add: failing_limiter_def)
  have el: "60 \<le> 161 - window_start \<lparr> requests_made = 7, window_start = 100,
             current_backoff = 27, retry_count = 3, last_request_time = 130 \<rparr>"
    by simp
  have mr: "1 \<le> max_retries failing_limiter"
    by (simp add: failing_limiter_def RateLimiter_init_def RATE_LIMIT_RETRY_MAX_def)
  have bb: "backoff_base failing_limiter = 3"
    by (simp add: failing_limiter_def RateLimiter_init_def)
  have "(81::real) \<le> 2 ^ 7" by simp
  also have "(2::real) ^ 7 \<le> 2 ^ 1023" by (rule power_increasing) simp_all
  finally have "float_pow 3 4 = Inr (3 powi 4)" by (intro float_pow_finite) simp_all
  then have before: "fst (record_failure failing_limiter ''api'' 130) = Inr 81"
    by (simp add: failing_limiter_def RateLimiter_init_def RATE_LIMIT_RETRY_MAX_def
        record_failure_def get_state_def Let_def)
  from window_reset_clears_retries[OF st el mr, of 161 161 162] st mr bb before
  show ?thesis by simp
qed

section \<open>Properties of the drift detector\<close>

lemma fuzzy_match_none:
  assumes "\<forall>e \<in> set es. lower fld \<noteq> lower e \<and> seq_ratio lib (lower fld) (lower e) = 0"
  shows "fuzzy_match_loop lib fld es None 0 = (None, 0)"
  using assms by (induction es) (simp_all add: Let_def)

lemma fuzzy_match_below:
  assumes "\<forall>e \<in> set es. lower fld \<noteq> lower e \<and> seq_ratio lib (lower fld) (lower e) < thr"
      and "best_score < thr"
  shows "snd (fuzzy_match_loop lib fld es best_match best_score) < thr"
  using assms by (induction es arbitrary: best_match best_score) (simp_all add: Let_def)

lemma drift_type_new_field_drift:
  "drift_type (new_field_drift lib det sch data f) = ''new_field''
   \<or> drift_type (new_field_drift lib det sch data f) = ''renamed_field''"
  by (simp add: new_field_drift_def split_beta Let_def)

lemma filter_new_in_missing:
  "filter (\<lambda>d. drift_type d = ''new_field'')
     (List.map_filter (missing_field_drift lib det sch data) fs) = []"
  by (induction fs)
     (auto simp: missing_field_drift_def split_beta Let_def
           split: option.splits if_splits)

lemma filter_new_in_type_change:
  "filter (\<lambda>d. drift_type d = ''new_field'')
     (List.map_filter (type_change_drift lib sch data) fs) = []"
  by (induction fs)
     (auto simp: type_change_drift_def Let_def
           split: option.splits if_splits)

lemma filter_missing_in_new:
  "filter (\<lambda>d. drift_type d = ''missing_field'')
     (map (new_field_drift lib det sch data) fs) = []"
  by (induction fs) (auto simp: new_field_drift_def split_beta Let_def)

lemma filter_missing_in_type_change:
  "filter (\<lambda>d. drift_type d = ''missing_field'')
     (List.map_filter (type_change_drift lib sch data) fs) = []"
  by (induction fs)
     (auto simp: type_change_drift_def Let_def
           split: option.splits if_splits)

text \<open>
  Claim C3. The detector's threshold is positive (the default is 0.8). If the record has
  exactly one field outside the expected schema, and that field matches no expected
  field (it equals none ignoring case, and its similarity ratio to each is 0), then
  \<open>detect_drift\<close> emits exactly one \<open>new_field\<close> drift, for that field, with confidence
  1.0. If exactly one expected field is absent from the record and no field of the
  record is similar to it (none equals it ignoring case, every ratio is below the
  threshold), then it emits exactly one \<open>missing_field\<close> drift, for that field.
\<close>

theorem detect_drift_single_field:
  assumes "0 < confidence_threshold det"
  shows "(filter (\<lambda>f. f \<notin> set (schema_fields (expected_schema_of det source_type))) (dict_keys data) = [fld]
          \<and> (\<forall>e \<in> set (schema_fields (expected_schema_of det source_type)).
                lower fld \<noteq> lower e \<and> seq_ratio lib (lower fld) (lower e) = 0)
        \<longrightarrow> filter (\<lambda>d. drift_type d = ''new_field'') (detect_drift lib det source_type data)
            = [\<lparr> field_name = fld, drift_type = ''new_field'', expected_type = None,
                 actual_type = Some (get_python_type (dict_get data fld PNone)),
                 confidence_score = 1,
                 sample_value = sample_of lib (dict_get data fld PNone) \<rparr>])
       \<and> (filter (\<lambda>f. f \<notin> set (dict_keys data)) (schema_fields (expected_schema_of det source_type)) = [fld]
          \<and> (\<forall>a \<in> set (dict_keys data).
                lower fld \<noteq> lower a \<and> seq_ratio lib (lower fld) (lower a) < confidence_threshold det)
        \<longrightarrow> (\<exists>c. filter (\<lambda>d. drift_type d = ''missing_field'') (detect_drift lib det source_type data)
            = [\<lparr> field_name = fld, drift_type = ''missing_field'',
                 expected_type = map_of (expected_schema_of det source_type) fld,
                 actual_type = None, confidence_score = c, sample_value = None \<rparr>]))"
proof (intro conjI impI)
  let ?sch = "expected_schema_of det source_type"
  assume a: "filter (\<lambda>f. f \<notin> set (schema_fields ?sch)) (dict_keys data) = [fld]
          \<and> (\<forall>e \<in> set (schema_fields ?sch).
                lower fld \<noteq> lower e \<and> seq_ratio lib (lower fld) (lower e) = 0)"
  have fm: "fuzzy_match_field lib fld (schema_fields ?sch) = (None, 0)"
    unfolding fuzzy_match_field_def by (rule fuzzy_match_none) (use a in blast)
  have nd: "new_field_drift lib det ?sch data fld =
      \<lparr> field_name = fld, drift_type = ''new_field'', expected_type = None,
        actual_type = Some (get_python_type (dict_get data fld PNone)),
        confidence_score = 1,
        sample_value = sample_of lib (dict_get data fld PNone) \<rparr>"
    using assms by (simp add: new_field_drift_def fm match_confidence_def)
  show "filter (\<lambda>d. drift_type d = ''new_field'') (detect_drift lib det source_type data)
            = [\<lparr> field_name = fld, drift_type = ''new_field'', expected_type = None,
                 actual_type = Some (get_python_type (dict_get data fld PNone)),
                 confidence_score = 1,
                 sample_value = sample_of lib (dict_get data fld PNone) \<rparr>]"
    using a by (simp add: detect_drift_def Let_def filter_new_in_missing
        filter_new_in_type_change nd)
next
  let ?sch = "expected_schema_of det source_type"
  assume b: "filter (\<lambda>f. f \<notin> set (dict_keys data)) (schema_fields ?sch) = [fld]
          \<and> (\<forall>a \<in> set (dict_keys data).
                lower fld \<noteq> lower a \<and> seq_ratio lib (lower fld) (lower a) < confidence_threshold det)"
  have "snd (fuzzy_match_loop lib fld (dict_keys data) None 0) < confidence_threshold det"
    by (rule fuzzy_match_below) (use b assms in simp_all)
  then have md: "missing_field_drift lib det ?sch data fld =
      Some \<lparr> field_name = fld, drift_type = ''missing_field'',
             expected_type = map_of ?sch fld, actual_type = None,
             confidence_score = match_confidence (fst (fuzzy_match_field lib fld (dict_keys data)))
                                  (snd (fuzzy_match_field lib fld (dict_keys data))),
             sample_value = None \<rparr>"
    by (simp add: missing_field_drift_def fuzzy_match_field_def split_beta)
  have "filter (\<lambda>d. drift_type d = ''missing_field'') (detect_drift lib det source_type data)
            = [\<lparr> field_name = fld, drift_type = ''missing_field'',
                 expected_type = map_of ?sch fld, actual_type = None,
                 confidence_score = match_confidence (fst (fuzzy_match_field lib fld (dict_keys data)))
                                  (snd (fuzzy_match_field lib fld (dict_keys data))),
                 sample_value = None \<rparr>]"
    using b by (simp add: detect_drift_def Let_def filter_missing_in_new
        filter_missing_in_type_change md)
  then show "\<exists>c. filter (\<lambda>d. drift_type d = ''missing_field'') (detect_drift lib det source_type data)
            = [\<lparr> field_name = fld, drift_type = ''missing_field'',
                 expected_type = map_of ?sch fld,
                 actual_type = None, confidence_score = c, sample_value = None \<rparr>]"
    by blast
qed


text \<open>
  The CSV schema of the source: a row with the extra column \<open>zzz\<close>, and a row without
  the column \<open>value\<close>.
\<close>

lemma csv_schema: "expected_schema_of (SchemaDriftDetector_init None) CSV =
    [(''id'', ''str''), (''name'', ''str''), (''description'', ''str''),
     (''category'', ''str''), (''value'', ''float''), (''date'', ''datetime''),
     (''active'', ''bool'')]"
  by (simp add: expected_schema_of_def SchemaDriftDetector_init_def EXPECTED_SCHEMAS_def)

lemma csv_fields: "schema_fields (expected_schema_of (SchemaDriftDetector_init None) CSV) =
    [''id'', ''name'', ''description'', ''category'', ''value'', ''date'', ''active'']"
  by (simp add: csv_schema schema_fields_def)

lemma lower_lowercase:
  "lower ''id'' = ''id''" "lower ''name'' = ''name''" "lower ''description'' = ''description''"
  "lower ''category'' = ''category''" "lower ''value'' = ''value''" "lower ''date'' = ''date''"
  "lower ''active'' = ''active''" "lower ''zzz'' = ''zzz''"
  by (simp_all add: lower_def lower_char_def)

theorem detect_drift_single_field_witness:
  "0 < confidence_threshold (SchemaDriftDetector_init None)
   \<and> filter (\<lambda>d. drift_type d = ''new_field'')
        (detect_drift example_lib (SchemaDriftDetector_init None) CSV csv_row_with_extra)
      = [\<lparr> field_name = ''zzz'', drift_type = ''new_field'', expected_type = None,
           actual_type = Some ''str'', confidence_score = 1, sample_value = Some ''surprise'' \<rparr>]
   \<and> map field_name (filter (\<lambda>d. drift_type d = ''missing_field'')
        (detect_drift example_lib (SchemaDriftDetector_init None) CSV csv_row_without_value))
      = [''value'']"
proof -
  let ?det = "SchemaDriftDetector_init None"
  have thr: "0 < confidence_threshold ?det" and thr8: "confidence_threshold ?det = 0.8"
    by (simp_all add: SchemaDriftDetector_init_def SCHEMA_DRIFT_CONFIDENCE_THRESHOLD_def)
  have k1: "dict_keys csv_row_with_extra =
      [''id'', ''name'', ''description'', ''category'', ''value'', ''date'', ''active'', ''zzz'']"
    by (simp add: dict_keys_def csv_row_with_extra_def)
  have k2: "dict_keys csv_row_without_value =
      [''id'', ''name'', ''description'', ''category'', ''date'', ''active'']"
    by (simp add: dict_keys_def csv_row_without_value_def)
  have r0: "seq_ratio example_lib = ratio_one_char" by (simp add: example_lib_def)
  have h1: "filter (\<lambda>f. f \<notin> set (schema_fields (expected_schema_of ?det CSV)))
              (dict_keys csv_row_with_extra) = [''zzz'']
          \<and> (\<forall>e \<in> set (schema_fields (expected_schema_of ?det CSV)).
                lower ''zzz'' \<noteq> lower e \<and> seq_ratio example_lib (lower ''zzz'') (lower e) = 0)"
    by (simp add: csv_fields k1 r0 ratio_one_char_def lower_lowercase)
  have new: "filter (\<lambda>d. drift_type d = ''new_field'')
        (detect_drift example_lib ?det CSV csv_row_with_extra)
      = [\<lparr> field_name = ''zzz'', drift_type = ''new_field'', expected_type = None,
           actual_type = Some ''str'', confidence_score = 1, sample_value = Some ''surprise'' \<rparr>]"
    using mp[OF conjunct1[OF detect_drift_single_field[OF thr]] h1]
    by (simp add: sample_of_def dict_get_def csv_row_with_extra_def example_lib_def)
  have h2: "filter (\<lambda>f. f \<notin> set (dict_keys csv_row_without_value))
              (schema_fields (expected_schema_of ?det CSV)) = [''value'']
          \<and> (\<forall>a \<in> set (dict_keys csv_row_without_value).
                lower ''value'' \<noteq> lower a
                \<and> seq_ratio example_lib (lower ''value'') (lower a) < confidence_threshold ?det)"
    by (simp add: csv_fields k2 r0 ratio_one_char_def thr8 lower_lowercase)
  obtain c where "filter (\<lambda>d. drift_type d = ''missing_field'')
        (detect_drift example_lib ?det CSV csv_row_without_value)
      = [\<lparr> field_name = ''value'', drift_type = ''missing_field'',
           expected_type = map_of (expected_schema_of ?det CSV) ''value'',
           actual_type = None, confidence_score = c, sample_value = None \<rparr>]"
    using mp[OF conjunct2[OF detect_drift_single_field[OF thr]] h2] by blast
  then have missing: "map field_name (filter (\<lambda>d. drift_type d = ''missing_field'')
        (detect_drift example_lib ?det CSV csv_row_without_value)) = [''value'']"
    by simp
  from thr new missing show ?thesis by simp
qed

section \<open>What the steps of a run leave alone\<close>

text \<open>
  Only \<open>update_checkpoint\<close> and \<open>reset_checkpoint\<close> write the checkpoint table, and
  only the run tracker writes the run table: every step of the loop body is a
  \<^const>\<open>frame\<close> step, and so is the loop.
\<close>

lemma healthy_db_call: "healthy w \<Longrightarrow> db_call w = (None, w\<lparr>db_calls := Suc (db_calls w)\<rparr>)"
  by (simp add: healthy_def db_call_def)

lemma healthy_frame: "frame w w' \<Longrightarrow> healthy w' = healthy w"
  by (simp add: frame_def healthy_def)

lemma frame_refl: "frame w w"
  by (simp add: frame_def)

lemma frame_trans: "frame w w1 \<Longrightarrow> frame w1 w2 \<Longrightarrow> frame w w2"
  by (simp add: frame_def)

lemma frame_utcnow: "frame w (snd (utcnow w))"
  by (simp add: frame_def utcnow_def)

lemma frame_db_call: "frame w (snd (db_call w))"
  by (simp add: frame_def db_call_def)

lemma frame_get_source_id: "frame w (snd (get_source_id lib ex w raw))"
  by (simp add: frame_def get_source_id_def utcnow_def split: extractor_class.splits)

lemma frame_get_checkpoint: "frame w (snd (get_checkpoint w st))"
  by (simp add: frame_def get_checkpoint_def db_call_def split: option.splits)

lemma frame_should_process: "frame w (snd (should_process ex w sid))"
  by (simp add: frame_def should_process_def get_last_source_id_def get_checkpoint_def
      db_call_def split: option.splits)

lemma frame_stamp_drifts: "frame w (snd (stamp_drifts w st ds))"
proof (induction ds arbitrary: w)
  case Nil
  then show ?case by (simp add: frame_refl)
next
  case (Cons d ds)
  have "frame w (snd (utcnow w))" by (rule frame_utcnow)
  moreover have "frame (snd (utcnow w)) (snd (stamp_drifts (snd (utcnow w)) st ds))"
    by (rule Cons.IH)
  ultimately show ?case by (simp add: split_beta frame_def)
qed

lemma frame_record_drifts: "frame w (snd (record_drifts w st ds))"
proof -
  have "frame (snd (db_call w)) (snd (stamp_drifts (snd (db_call w)) st ds))"
    by (rule frame_stamp_drifts)
  then show ?thesis using frame_db_call[of w]
    by (simp add: record_drifts_def split_beta frame_def split: option.splits)
qed

lemma frame_drift_step: "frame w (drift_step lib ex w raw)"
  by (simp add: drift_step_def Let_def frame_refl frame_record_drifts split: option.splits)

lemma frame_upsert_raw: "frame w (snd (upsert_raw w tbl row t))"
  by (simp add: frame_def upsert_raw_def split: option.splits)

lemma frame_upsert_unified: "frame w (snd (upsert_unified w row t))"
  by (simp add: frame_def upsert_unified_def split: option.splits)

lemma frame_load_raw: "frame w (snd (load_raw lib ex w raw))"
proof -
  have "frame w (snd (get_source_id lib ex w raw))" by (rule frame_get_source_id)
  then show ?thesis
    using frame_upsert_raw
    by (simp add: load_raw_def split_beta Let_def frame_def utcnow_def db_call_def
        split: option.splits)
qed

lemma frame_load_unified: "frame w (snd (load_unified lib ex w t i))"
  using frame_upsert_unified
  by (simp add: load_unified_def split_beta Let_def frame_def utcnow_def db_call_def
      split: option.splits)

lemma frame_process_record:
  "frame w (fst (snd (process_record lib (ex, w, last_id) raw)))"
proof -
  let ?w1 = "snd (get_source_id lib ex w raw)"
  let ?sid = "fst (get_source_id lib ex w raw)"
  let ?w2 = "snd (should_process ex ?w1 ?sid)"
  let ?w3 = "drift_step lib (bump_extracted ex) ?w2 raw"
  let ?w4 = "snd (load_raw lib (bump_extracted ex) ?w3 raw)"
  have f1: "frame w ?w1" by (rule frame_get_source_id)
  have f2: "frame w ?w2" by (rule frame_trans[OF f1 frame_should_process])
  have f3: "frame w ?w3" by (rule frame_trans[OF f2 frame_drift_step])
  have f4: "frame w ?w4" by (rule frame_trans[OF f3 frame_load_raw])
  have f5: "\<And>ex' t i. frame w (snd (load_unified lib ex' ?w4 t i))"
    by (rule frame_trans[OF f4 frame_load_unified])
  show ?thesis
    using f2 f4 f5
    by (simp add: process_record_def split_beta Let_def split: sum.splits bool.splits)
qed

lemma frame_process_records:
  "frame w (fst (snd (foldl (process_record lib) (ex, w, last_id) raws)))"
proof (induction raws arbitrary: ex w last_id)
  case Nil
  then show ?case by (simp add: frame_refl)
next
  case (Cons raw raws)
  obtain ex1 w1 l1 where s: "process_record lib (ex, w, last_id) raw = (ex1, w1, l1)"
    by (cases "process_record lib (ex, w, last_id) raw") auto
  have "frame w w1" using frame_process_record[of w lib ex last_id raw] s by simp
  moreover have "frame w1 (fst (snd (foldl (process_record lib) (ex1, w1, l1) raws)))"
    by (rule Cons.IH)
  ultimately show ?case by (simp add: s frame_trans)
qed

section \<open>Properties of the checkpoint manager\<close>

lemma get_checkpoint_ok:
  "fault_plan w (db_calls w) = None \<Longrightarrow>
   get_checkpoint w st = (Inr (etl_checkpoints w st), w\<lparr>db_calls := Suc (db_calls w)\<rparr>)"
  by (simp add: get_checkpoint_def db_call_def)

lemma get_checkpoint_fault:
  "fault_plan w (db_calls w) = Some c \<Longrightarrow>
   get_checkpoint w st =
     (Inl (Exn CheckpointError (''Failed to get checkpoint: '' @ c)),
      w\<lparr>db_calls := Suc (db_calls w)\<rparr>)"
  by (simp add: get_checkpoint_def db_call_def)

text \<open>
  Claim C6. When the checkpoint query does not fail: without a checkpoint row for the
  extractor's source type (or with a row whose \<open>last_source_id\<close> is empty after a
  reset) \<open>should_process\<close> is true for every source id; with a stored
  \<open>last_source_id\<close> it is the strict lexicographic comparison of the two strings, so
  against \<open>test:50\<close> both \<open>test:6\<close> and \<open>test:51\<close> are processed, while \<open>test:100\<close>,
  numerically later, is not.
\<close>

theorem should_process_lexicographic:
  assumes "fault_plan w (db_calls w) = None"
  shows "(etl_checkpoints w (source_type_of (extractor_cls ex)) = None
            \<longrightarrow> fst (should_process ex w source_id) = Inr True)
       \<and> (etl_checkpoints w (source_type_of (extractor_cls ex)) = Some checkpoint
            \<and> last_source_id checkpoint = None
            \<longrightarrow> fst (should_process ex w source_id) = Inr True)
       \<and> (etl_checkpoints w (source_type_of (extractor_cls ex)) = Some checkpoint
            \<and> last_source_id checkpoint = Some last_id
            \<longrightarrow> fst (should_process ex w source_id) = Inr (last_id < source_id))
       \<and> (etl_checkpoints w (source_type_of (extractor_cls ex)) = Some checkpoint
            \<and> last_source_id checkpoint = Some ''test:50''
            \<longrightarrow> fst (should_process ex w ''test:6'') = Inr True
              \<and> fst (should_process ex w ''test:51'') = Inr True
              \<and> fst (should_process ex w ''test:100'') = Inr False)"
  using assms
  by (simp add: should_process_def get_last_source_id_def get_checkpoint_ok)

theorem should_process_lexicographic_witness:
  "fault_plan (store_at ''test:50'') (db_calls (store_at ''test:50'')) = None
   \<and> fst (should_process csv_extractor (empty_store 0) ''test:1'') = Inr True
   \<and> fst (should_process csv_extractor (store_at ''test:50'') ''test:6'') = Inr True
   \<and> fst (should_process csv_extractor (store_at ''test:50'') ''test:51'') = Inr True
   \<and> fst (should_process csv_extractor (store_at ''test:50'') ''test:100'') = Inr False"
proof -
  have f: "fault_plan (store_at ''test:50'') (db_calls (store_at ''test:50'')) = None"
    and f0: "fault_plan (empty_store 0) (db_calls (empty_store 0)) = None"
    by (simp_all add: store_at_def empty_store_def)
  have st: "source_type_of (extractor_cls csv_extractor) = CSV"
    by (simp add: csv_extractor_def extractor_init_def)
  have c: "etl_checkpoints (store_at ''test:50'') (source_type_of (extractor_cls csv_extractor))
             = Some (checkpoint_at ''test:50'')
           \<and> last_source_id (checkpoint_at ''test:50'') = Some ''test:50''"
    by (simp add: st store_at_def checkpoint_at_def)
  have n: "etl_checkpoints (empty_store 0) (source_type_of (extractor_cls csv_extractor)) = None"
    by (simp add: empty_store_def)
  from mp[OF conjunct1[OF should_process_lexicographic[OF f0]] n, of "''test:1''"]
       mp[OF conjunct2[OF conjunct2[OF conjunct2[OF should_process_lexicographic[OF f]]]] c]
       f
  show ?thesis by simp
qed

text \<open>
  Claim C8. \<open>update_checkpoint\<close>, when none of its three database calls fails, stores
  and returns the row for the source type: a new row built from the arguments when
  there was none, otherwise the stored row in which only the arguments that are not
  \<open>None\<close> replace \<open>last_source_id\<close>, \<open>last_offset\<close> and the metadata; in both cases
  \<open>last_processed_at\<close> is the clock reading of the call. When a database call of
  \<open>get_checkpoint\<close>, \<open>update_checkpoint\<close> or \<open>reset_checkpoint\<close> fails, the function
  raises a \<open>CheckpointError\<close> whose message ends with the message of the cause.
\<close>

theorem update_checkpoint_upsert:
  "(fault_plan w (db_calls w) = None \<and> fault_plan w (Suc (db_calls w)) = None
      \<and> fault_plan w (Suc (Suc (db_calls w))) = None
     \<longrightarrow> (\<exists>written w'. update_checkpoint w st new_id new_offset metadata = (Inr written, w')
            \<and> etl_checkpoints w' = (etl_checkpoints w)(st \<mapsto> written)
            \<and> last_processed_at written = Some (clock w (ticks w))
            \<and> (case etl_checkpoints w st of
                 None \<Rightarrow>
                   cp_source_type written = st
                   \<and> last_source_id written = new_id
                   \<and> last_offset written = (case new_offset of None \<Rightarrow> 0 | Some n \<Rightarrow> n)
                   \<and> checkpoint_metadata written = metadata
               | Some stored \<Rightarrow>
                   cp_source_type written = cp_source_type stored
                   \<and> last_source_id written =
                       (case new_id of None \<Rightarrow> last_source_id stored | Some s \<Rightarrow> Some s)
                   \<and> last_offset written =
                       (case new_offset of None \<Rightarrow> last_offset stored | Some n \<Rightarrow> n)
                   \<and> checkpoint_metadata written =
                       (case metadata of None \<Rightarrow> checkpoint_metadata stored
                        | Some m \<Rightarrow> Some m))))
   \<and> (fault_plan w (db_calls w) = Some cause
     \<longrightarrow> (\<exists>e. fst (get_checkpoint w st) = Inl e
              \<and> exn_cls e = CheckpointError \<and> suffix cause (exn_str e)))
   \<and> (fault_plan w (db_calls w) = Some cause
       \<or> fault_plan w (db_calls w) = None \<and> fault_plan w (Suc (db_calls w)) = Some cause
       \<or> fault_plan w (db_calls w) = None \<and> fault_plan w (Suc (db_calls w)) = None
          \<and> fault_plan w (Suc (Suc (db_calls w))) = Some cause
     \<longrightarrow> (\<exists>e. fst (update_checkpoint w st new_id new_offset metadata) = Inl e
              \<and> exn_cls e = CheckpointError \<and> suffix cause (exn_str e)))
   \<and> (fault_plan w (db_calls w) = Some cause
       \<or> fault_plan w (db_calls w) = None \<and> etl_checkpoints w st \<noteq> None
          \<and> fault_plan w (Suc (db_calls w)) = Some cause
     \<longrightarrow> (\<exists>e. fst (reset_checkpoint w st) = Inl e
              \<and> exn_cls e = CheckpointError \<and> suffix cause (exn_str e)))"
proof (intro conjI impI)
  assume ok: "fault_plan w (db_calls w) = None \<and> fault_plan w (Suc (db_calls w)) = None
      \<and> fault_plan w (Suc (Suc (db_calls w))) = None"
  let ?cp = "patched_checkpoint (etl_checkpoints w st) st new_id new_offset metadata
               (clock w (ticks w)) (clock w (Suc (ticks w)))"
  have "update_checkpoint w st new_id new_offset metadata =
      (Inr ?cp, w\<lparr>db_calls := Suc (Suc (Suc (db_calls w))), ticks := Suc (Suc (ticks w)),
                   etl_checkpoints := (etl_checkpoints w)(st \<mapsto> ?cp)\<rparr>)"
    using ok by (simp add: update_checkpoint_def get_checkpoint_ok db_call_def utcnow_def Let_def)
  moreover have "last_processed_at ?cp = Some (clock w (ticks w))"
    by (simp add: patched_checkpoint_def split: option.splits)
  moreover have "case etl_checkpoints w st of
                 None \<Rightarrow>
                   cp_source_type ?cp = st
                   \<and> last_source_id ?cp = new_id
                   \<and> last_offset ?cp = (case new_offset of None \<Rightarrow> 0 | Some n \<Rightarrow> n)
                   \<and> checkpoint_metadata ?cp = metadata
               | Some stored \<Rightarrow>
                   cp_source_type ?cp = cp_source_type stored
                   \<and> last_source_id ?cp =
                       (case new_id of None \<Rightarrow> last_source_id stored | Some s \<Rightarrow> Some s)
                   \<and> last_offset ?cp =
                       (case new_offset of None \<Rightarrow> last_offset stored | Some n \<Rightarrow> n)
                   \<and> checkpoint_metadata ?cp =
                       (case metadata of None \<Rightarrow> checkpoint_metadata stored
                        | Some m \<Rightarrow> Some m)"
    by (simp add: patched_checkpoint_def split: option.splits)
  ultimately show "\<exists>written w'. update_checkpoint w st new_id new_offset metadata = (Inr written, w')
            \<and> etl_checkpoints w' = (etl_checkpoints w)(st \<mapsto> written)
            \<and> last_processed_at written = Some (clock w (ticks w))
            \<and> (case etl_checkpoints w st of
                 None \<Rightarrow>
                   cp_source_type written = st
                   \<and> last_source_id written = new_id
                   \<and> last_offset written = (case new_offset of None \<Rightarrow> 0 | Some n \<Rightarrow> n)
                   \<and> checkpoint_metadata written = metadata
               | Some stored \<Rightarrow>
                   cp_source_type written = cp_source_type stored
                   \<and> last_source_id written =
                       (case new_id of None \<Rightarrow> last_source_id stored | Some s \<Rightarrow> Some s)
                   \<and> last_offset written =
                       (case new_offset of None \<Rightarrow> last_offset stored | Some n \<Rightarrow> n)
                   \<and> checkpoint_metadata written =
                       (case metadata of None \<Rightarrow> checkpoint_metadata stored
                        | Some m \<Rightarrow> Some m))"
    by simp
next
  assume "fault_plan w (db_calls w) = Some cause"
  then show "\<exists>e. fst (get_checkpoint w st) = Inl e
              \<and> exn_cls e = CheckpointError \<and> suffix cause (exn_str e)"
    by (simp add: get_checkpoint_fault suffix_def)
next
  assume "fault_plan w (db_calls w) = Some cause
       \<or> fault_plan w (db_calls w) = None \<and> fault_plan w (Suc (db_calls w)) = Some cause
       \<or> fault_plan w (db_calls w) = None \<and> fault_plan w (Suc (db_calls w)) = None
          \<and> fault_plan w (Suc (Suc (db_calls w))) = Some cause"
  then consider
      (query) "fault_plan w (db_calls w) = Some cause"
    | (commit) "fault_plan w (db_calls w) = None" "fault_plan w (Suc (db_calls w)) = Some cause"
    | (refresh) "fault_plan w (db_calls w) = None" "fault_plan w (Suc (db_calls w)) = None"
        "fault_plan w (Suc (Suc (db_calls w))) = Some cause"
    by auto
  then show "\<exists>e. fst (update_checkpoint w st new_id new_offset metadata) = Inl e
              \<and> exn_cls e = CheckpointError \<and> suffix cause (exn_str e)"
  proof cases
    case query
    then show ?thesis
      by (simp add: update_checkpoint_def get_checkpoint_fault suffix_def)
  next
    case commit
    then show ?thesis
      by (simp add: update_checkpoint_def get_checkpoint_ok db_call_def utcnow_def suffix_def)
  next
    case refresh
    then show ?thesis
      by (simp add: update_checkpoint_def get_checkpoint_ok db_call_def utcnow_def Let_def
          suffix_def)
  qed
next
  assume "fault_plan w (db_calls w) = Some cause
       \<or> fault_plan w (db_calls w) = None \<and> etl_checkpoints w st \<noteq> None
          \<and> fault_plan w (Suc (db_calls w)) = Some cause"
  then consider
      (query) "fault_plan w (db_calls w) = Some cause"
    | (commit) "fault_plan w (db_calls w) = None" "etl_checkpoints w st \<noteq> None"
        "fault_plan w (Suc (db_calls w)) = Some cause"
    by auto
  then show "\<exists>e. fst (reset_checkpoint w st) = Inl e
              \<and> exn_cls e = CheckpointError \<and> suffix cause (exn_str e)"
  proof cases
    case query
    then show ?thesis
      by (simp add: reset_checkpoint_def get_checkpoint_fault suffix_def)
  next
    case commit
    then show ?thesis
      by (auto simp add: reset_checkpoint_def get_checkpoint_ok db_call_def suffix_def)
  qed
qed


text \<open>
  A checkpoint at \<open>test:50\<close> updated with a new offset only keeps its source id; on
  the store whose second call fails the commit's exception becomes a
  \<open>CheckpointError\<close>.
\<close>

theorem update_checkpoint_upsert_witness:
  "map_option last_source_id
      (etl_checkpoints (snd (update_checkpoint (store_at ''test:50'') CSV None (Some 60) None)) CSV)
     = Some (Some ''test:50'')
   \<and> map_option last_offset
      (etl_checkpoints (snd (update_checkpoint (store_at ''test:50'') CSV None (Some 60) None)) CSV)
     = Some 60
   \<and> map_option last_processed_at
      (etl_checkpoints (snd (update_checkpoint (store_at ''test:50'') CSV None (Some 60) None)) CSV)
     = Some (Some 100)
   \<and> fst (update_checkpoint flaky_store CSV (Some ''f.csv:7'') None None)
     = Inl (Exn CheckpointError ''Failed to update checkpoint: connection lost'')
   \<and> etl_checkpoints (snd (update_checkpoint flaky_store CSV (Some ''f.csv:7'') None None)) CSV
     = None"
proof -
  have ok: "fault_plan (store_at ''test:50'') (db_calls (store_at ''test:50'')) = None
      \<and> fault_plan (store_at ''test:50'') (Suc (db_calls (store_at ''test:50''))) = None
      \<and> fault_plan (store_at ''test:50'') (Suc (Suc (db_calls (store_at ''test:50'')))) = None"
    by (simp add: store_at_def empty_store_def)
  obtain written w' where
    u: "update_checkpoint (store_at ''test:50'') CSV None (Some 60) None = (Inr written, w')"
    and t: "etl_checkpoints w' = (etl_checkpoints (store_at ''test:50''))(CSV \<mapsto> written)"
    and p: "last_processed_at written = Some (clock (store_at ''test:50'') (ticks (store_at ''test:50'')))"
    and c: "case etl_checkpoints (store_at ''test:50'') CSV of
                 None \<Rightarrow>
                   cp_source_type written = CSV
                   \<and> last_source_id written = None
                   \<and> last_offset written = (case Some 60 of None \<Rightarrow> 0 | Some n \<Rightarrow> n)
                   \<and> checkpoint_metadata written = None
               | Some stored \<Rightarrow>
                   cp_source_type written = cp_source_type stored
                   \<and> last_source_id written =
                       (case None of None \<Rightarrow> last_source_id stored | Some s \<Rightarrow> Some s)
                   \<and> last_offset written =
                       (case Some 60 of None \<Rightarrow> last_offset stored | Some n \<Rightarrow> n)
                   \<and> checkpoint_metadata written =
                       (case None of None \<Rightarrow> checkpoint_metadata stored
                        | Some m \<Rightarrow> Some m)"
    using mp[OF conjunct1[OF update_checkpoint_upsert[of "store_at ''test:50''" CSV None "Some 60" None]] ok]
    by blast
  have a: "map_option last_source_id (etl_checkpoints w' CSV) = Some (Some ''test:50'')"
    and b: "map_option last_offset (etl_checkpoints w' CSV) = Some 60"
    using t c by (simp_all add: store_at_def checkpoint_at_def)
  have d: "map_option last_processed_at (etl_checkpoints w' CSV) = Some (Some 100)"
    using t p by (simp add: store_at_def empty_store_def)
  have e: "fst (update_checkpoint flaky_store CSV (Some ''f.csv:7'') None None)
     = Inl (Exn CheckpointError ''Failed to update checkpoint: connection lost'')"
    and f: "etl_checkpoints (snd (update_checkpoint flaky_store CSV (Some ''f.csv:7'') None None)) CSV
     = None"
    by (simp_all add: update_checkpoint_def get_checkpoint_def db_call_def utcnow_def
        flaky_store_def empty_store_def)
  from a b d e f show ?thesis unfolding u by simp
qed

section \<open>Properties of the run\<close>


text \<open>The counters: a record either leaves the loaded count and \<open>last_source_id\<close> alone, or adds one and sets it.\<close>

lemma process_record_loaded:
  assumes "process_record lib (ex, w, last_id) raw = (ex1, w1, last1)"
  shows "(records_loaded (stats ex1) = records_loaded (stats ex) \<and> last1 = last_id)
       \<or> (records_loaded (stats ex1) = records_loaded (stats ex) + 1 \<and> last1 \<noteq> None)"
  using assms
  by (auto simp add: process_record_def split_beta Let_def bump_failed_def bump_skipped_def
      bump_extracted_def bump_transformed_def bump_loaded_def
      split: sum.splits bool.splits prod.splits)

lemma process_record_cls:
  assumes "process_record lib (ex, w, last_id) raw = (ex1, w1, last1)"
  shows "extractor_cls ex1 = extractor_cls ex"
  using assms
  by (auto simp add: process_record_def split_beta Let_def bump_failed_def bump_skipped_def
      bump_extracted_def bump_transformed_def bump_loaded_def
      split: sum.splits bool.splits prod.splits)

lemma process_records_loaded:
  assumes "foldl (process_record lib) (ex, w, last_id) raws = (ex1, w1, last1)"
  shows "records_loaded (stats ex) \<le> records_loaded (stats ex1)
       \<and> (records_loaded (stats ex1) = records_loaded (stats ex) \<longrightarrow> last1 = last_id)
       \<and> extractor_cls ex1 = extractor_cls ex"
  using assms
proof (induction raws arbitrary: ex w last_id)
  case Nil
  then show ?case by simp
next
  case (Cons raw raws)
  obtain ex' w' l' where s: "process_record lib (ex, w, last_id) raw = (ex', w', l')"
    by (cases "process_record lib (ex, w, last_id) raw") auto
  have rest: "foldl (process_record lib) (ex', w', l') raws = (ex1, w1, last1)"
    using Cons.prems s by simp
  note ih = Cons.IH[OF rest]
  from process_record_loaded[OF s] process_record_cls[OF s] ih show ?case by auto
qed

lemma checkpoints_start_run:
  "etl_checkpoints (snd (start_run w st md uuid)) = etl_checkpoints w"
  by (simp add: start_run_def utcnow_def db_call_def Let_def split: option.splits)

lemma checkpoints_complete_run:
  "etl_checkpoints (snd (complete_run lib w r s c e d h)) = etl_checkpoints w"
  by (simp add: complete_run_def utcnow_def db_call_def Let_def split: option.splits)

lemma checkpoints_fail_run:
  "etl_checkpoints (snd (snd (fail_run lib ex w r e))) = etl_checkpoints w"
  using checkpoints_complete_run[of lib w r FAILED "stats ex" "Some e" None "Some e"]
  by (auto simp add: fail_run_def split: prod.splits sum.splits)

lemma start_run_healthy:
  assumes "healthy w"
  shows "\<exists>r w'. start_run w st md uuid = (Inr r, w') \<and> run_id r = uuid
           \<and> etl_runs w' = (etl_runs w)(uuid \<mapsto> r) \<and> healthy w'
           \<and> etl_checkpoints w' = etl_checkpoints w"
  using assms by (simp add: start_run_def utcnow_def db_call_def Let_def healthy_def)

lemma complete_run_healthy:
  assumes "healthy w"
  shows "\<exists>r' w'. complete_run lib w r s c e d h = (Inr r', w')
           \<and> etl_runs w' = (etl_runs w)(run_id r \<mapsto> r') \<and> healthy w'
           \<and> etl_checkpoints w' = etl_checkpoints w
           \<and> run_id r' = run_id r \<and> status r' = s \<and> run_counters r' = c
           \<and> completed_at r' \<noteq> None
           \<and> error_message r' = (case e of None \<Rightarrow> error_message r | Some x \<Rightarrow> Some (exn_str x))
           \<and> error_traceback r' =
               (case e of None \<Rightarrow> error_traceback r
                | Some x \<Rightarrow> Some (case h of None \<Rightarrow> ''NoneType: None''
                                     | Some y \<Rightarrow> format_exc lib y))"
  using assms
  by (simp add: complete_run_def utcnow_def db_call_def Let_def healthy_def split: option.splits)



text \<open>
  A run on a store that does not fail, up to the end of the loop: the run row is
  stored under the UUID, and the loop leaves it and the checkpoints alone.
\<close>

lemma run_loop_healthy:
  assumes h: "healthy w"
  obtains checkpoint w1 r w2 ex1 w3 last_id where
    "get_checkpoint w (source_type_of (extractor_cls ex)) = (Inr checkpoint, w1)"
    "start_run w1 (source_type_of (extractor_cls ex))
       (Some [(''checkpoint'', checkpoint_info lib checkpoint)]) uuid = (Inr r, w2)"
    "foldl (process_record lib) (ex, w2, None) raws = (ex1, w3, last_id)"
    "run_id r = uuid" "healthy w3" "etl_checkpoints w3 = etl_checkpoints w"
    "etl_runs w3 uuid = Some r"
proof -
  let ?st = "source_type_of (extractor_cls ex)"
  let ?w1 = "w\<lparr>db_calls := Suc (db_calls w)\<rparr>"
  have g: "get_checkpoint w ?st = (Inr (etl_checkpoints w ?st), ?w1)"
    using h by (simp add: get_checkpoint_ok healthy_def)
  have h1: "healthy ?w1" using h by (simp add: healthy_def)
  obtain r w2 where s: "start_run ?w1 ?st
       (Some [(''checkpoint'', checkpoint_info lib (etl_checkpoints w ?st))]) uuid = (Inr r, w2)"
    and rid: "run_id r = uuid" and runs2: "etl_runs w2 = (etl_runs ?w1)(uuid \<mapsto> r)"
    and h2: "healthy w2" and cp2: "etl_checkpoints w2 = etl_checkpoints ?w1"
    using start_run_healthy[OF h1] by blast
  obtain ex1 w3 last_id where f: "foldl (process_record lib) (ex, w2, None) raws = (ex1, w3, last_id)"
    by (cases "foldl (process_record lib) (ex, w2, None) raws") auto
  have fr: "frame w2 w3" using frame_process_records[of w2 lib ex None raws] f by simp
  have h3: "healthy w3" using healthy_frame[OF fr] h2 by simp
  have cp3: "etl_checkpoints w3 = etl_checkpoints w" using fr cp2 by (simp add: frame_def)
  have runs3: "etl_runs w3 uuid = Some r" using fr runs2 by (simp add: frame_def)
  from that[OF g s f rid h3 cp3 runs3] show ?thesis .
qed

text \<open>A run whose extraction raises, on a store that does not fail.\<close>

lemma run_failed_books:
  assumes h: "healthy w"
      and r: "run lib ex w uuid (raws, Some e) = (result, ex', w')"
  shows "result = Inl e \<and> etl_checkpoints w' = etl_checkpoints w
       \<and> (\<exists>r. etl_runs w' uuid = Some r \<and> status r = FAILED
              \<and> error_message r = Some (exn_str e)
              \<and> error_traceback r = Some (format_exc lib e)
              \<and> run_counters r = stats ex' \<and> completed_at r \<noteq> None)
       \<and> healthy w'"
proof -
  obtain checkpoint w1 r0 w2 ex1 w3 last_id where
    g: "get_checkpoint w (source_type_of (extractor_cls ex)) = (Inr checkpoint, w1)" and
    s: "start_run w1 (source_type_of (extractor_cls ex))
       (Some [(''checkpoint'', checkpoint_info lib checkpoint)]) uuid = (Inr r0, w2)" and
    f: "foldl (process_record lib) (ex, w2, None) raws = (ex1, w3, last_id)" and
    rid: "run_id r0 = uuid" and h3: "healthy w3" and
    cp3: "etl_checkpoints w3 = etl_checkpoints w" and runs3: "etl_runs w3 uuid = Some r0"
    using run_loop_healthy[OF h] by metis
  obtain r' w4 where c: "complete_run lib w3 r0 FAILED (stats ex1) (Some e) None (Some e) = (Inr r', w4)"
    and runs4: "etl_runs w4 = (etl_runs w3)(run_id r0 \<mapsto> r')"
    and cp4: "etl_checkpoints w4 = etl_checkpoints w3" and h4: "healthy w4"
    and props: "status r' = FAILED" "run_counters r' = stats ex1" "completed_at r' \<noteq> None"
       "error_message r' = Some (exn_str e)" "error_traceback r' = Some (format_exc lib e)"
    using complete_run_healthy[OF h3, of lib r0 FAILED "stats ex1" "Some e" None "Some e"]
    by auto
  have "run lib ex w uuid (raws, Some e) = (Inl e, ex1, w4)"
    by (simp add: run_def g s f fail_run_def c)
  with r have "result = Inl e" "ex' = ex1" "w' = w4" by auto
  then show ?thesis using runs4 cp4 cp3 rid props h4 by simp
qed











lemmas run_eval = run_def get_checkpoint_def start_run_def process_record_def get_source_id_def
  should_process_def get_last_source_id_def drift_step_def load_raw_def load_unified_def
  upsert_raw_def upsert_unified_def fail_run_def complete_run_def write_checkpoint_def
  update_checkpoint_def patched_checkpoint_def db_call_def utcnow_def bump_failed_def
  bump_skipped_def bump_extracted_def bump_transformed_def bump_loaded_def raw_payload_of_def
  raw_columns_of_def unified_key_def checkpoint_info_def run_result_def total_seconds_def
  dict_get_def failing_extract_def csv_extractor_def extractor_init_def empty_store_def
  store_at_def checkpoint_at_def csv_row_def three_rows_def example_lib_def title_of_name_def
  Let_def str_int_eval




text \<open>
  Claim C1, as the code has it. On a store whose calls do not fail, when the extraction
  sequence raises \<open>e\<close> after the records it emitted were handled, \<open>run\<close> leaves the
  checkpoint table exactly as it found it (the cursor does not move to the last record
  handled), the stored run row has the status \<open>failed\<close> and the message of \<open>e\<close>, and
  \<open>e\<close> is raised to the caller. In particular \<open>run_with_failure_injection\<close> with
  \<open>fail_at_record = k\<close>, on a source that yields at least \<open>k\<close> records, leaves the
  checkpoint table as it found it, records the run as failed with the message of the
  injected exception, and reports \<open>k - 1\<close> records before the failure.
\<close>

theorem run_failure_keeps_checkpoint:
  assumes "healthy w"
  shows "(run lib ex w uuid (raws, Some e) = (result, ex', w')
          \<longrightarrow> etl_checkpoints w' = etl_checkpoints w
            \<and> (\<exists>r. etl_runs w' uuid = Some r \<and> status r = FAILED
                   \<and> error_message r = Some (exn_str e))
            \<and> result = Inl e)
       \<and> (1 \<le> k \<and> k \<le> int (length raws)
          \<and> run_with_failure_injection lib transforms w uuid k source_type (raws, failure)
              = (outcome, w'')
          \<longrightarrow> etl_checkpoints w'' = etl_checkpoints w
            \<and> (\<exists>r. etl_runs w'' uuid = Some r \<and> status r = FAILED
                   \<and> error_message r = Some (''Injected failure at record '' @ str_int k))
            \<and> outcome = Inr [(''status'', PStr ''failed_injection''),
                             (''records_before_failure'', PInt (k - 1)),
                             (''error'', PStr (''Injected failure at record '' @ str_int k))])"
proof (rule conjI[OF impI impI])
  assume r: "run lib ex w uuid (raws, Some e) = (result, ex', w')"
  from run_failed_books[OF assms r]
  show "etl_checkpoints w' = etl_checkpoints w
            \<and> (\<exists>r. etl_runs w' uuid = Some r \<and> status r = FAILED
                   \<and> error_message r = Some (exn_str e))
            \<and> result = Inl e"
    by auto
next
  assume a: "1 \<le> k \<and> k \<le> int (length raws)
          \<and> run_with_failure_injection lib transforms w uuid k source_type (raws, failure)
              = (outcome, w'')"
  define c where "c = (if source_type = ''csv'' then CSVExtractor
            else if source_type = ''api'' then APIExtractor else RSSExtractor)"
  let ?ex = "extractor_init c (transforms c)"
  define e0 where "e0 = Exn ETLException (''Injected failure at record '' @ str_int k)"
  have fe: "failing_extract k (raws, failure) = ((take (nat (k - 1)) raws, Some e0), k)"
    using a by (simp add: failing_extract_def e0_def)
  obtain res ex1 w1 where r: "run lib ?ex w uuid (take (nat (k - 1)) raws, Some e0) = (res, ex1, w1)"
    by (cases "run lib ?ex w uuid (take (nat (k - 1)) raws, Some e0)") auto
  note b = run_failed_books[OF assms r]
  have res: "res = Inl e0" and cp: "etl_checkpoints w1 = etl_checkpoints w"
    and h1: "healthy w1" using b by simp_all
  obtain r0 where r0: "etl_runs w1 uuid = Some r0" "status r0 = FAILED"
    "error_message r0 = Some (exn_str e0)" using b by auto
  have msg: "exn_str e0 = ''Injected failure at record '' @ str_int k"
    and cls: "is_ETLException (exn_cls e0)" by (simp_all add: e0_def)
  have "run_with_failure_injection lib transforms w uuid k source_type (raws, failure)
        = (Inr [(''status'', PStr ''failed_injection''),
                (''records_before_failure'', PInt (k - 1)),
                (''error'', PStr (exn_str e0))],
           w1\<lparr>db_calls := Suc (db_calls w1)\<rparr>)"
    unfolding run_with_failure_injection_def Let_def c_def[symmetric] fe
    using h1 cls by (simp add: r res healthy_db_call)
  with a msg have o: "outcome = Inr [(''status'', PStr ''failed_injection''),
                (''records_before_failure'', PInt (k - 1)),
                (''error'', PStr (''Injected failure at record '' @ str_int k))]"
    and w: "w'' = w1\<lparr>db_calls := Suc (db_calls w1)\<rparr>" by auto
  show "etl_checkpoints w'' = etl_checkpoints w
            \<and> (\<exists>r. etl_runs w'' uuid = Some r \<and> status r = FAILED
                   \<and> error_message r = Some (''Injected failure at record '' @ str_int k))
            \<and> outcome = Inr [(''status'', PStr ''failed_injection''),
                             (''records_before_failure'', PInt (k - 1)),
                             (''error'', PStr (''Injected failure at record '' @ str_int k))]"
    using o w cp r0 msg by simp
qed

text \<open>
  Three CSV rows, no checkpoint, failure injected at record 3: rows 1 and 2 are loaded,
  the run is recorded as failed, and there is still no checkpoint, where the claim
  expects one at \<open>f.csv:2\<close>.
\<close>

theorem run_failure_checkpoint_counterexample:
  "records_loaded (stats (fst (snd injected_run))) = 2
   \<and> map unified_source_id (unified_data (snd (snd injected_run))) = [''1'', ''2'']
   \<and> etl_checkpoints (snd (snd injected_run)) CSV = None
   \<and> fst (get_last_source_id (snd (snd injected_run)) CSV) = Inr None"
  by (simp add: injected_run_def run_eval)

theorem run_failure_keeps_checkpoint_witness:
  "healthy (store_at ''f.csv:1'')
   \<and> etl_checkpoints (snd (snd (run example_lib csv_extractor (store_at ''f.csv:1'') ''run-4''
         ([csv_row 2 ''b'', csv_row 3 ''c''], Some (Exn ExtractionError ''file unreadable''))))) CSV
       = Some (checkpoint_at ''f.csv:1'')
   \<and> fst (run example_lib csv_extractor (store_at ''f.csv:1'') ''run-4''
         ([csv_row 2 ''b'', csv_row 3 ''c''], Some (Exn ExtractionError ''file unreadable'')))
       = Inl (Exn ExtractionError ''file unreadable'')
   \<and> fst (run_with_failure_injection example_lib example_transforms (store_at ''f.csv:1'')
            ''run-5'' 3 ''csv'' (three_rows, None))
       = Inr [(''status'', PStr ''failed_injection''),
              (''records_before_failure'', PInt 2),
              (''error'', PStr ''Injected failure at record 3'')]
   \<and> etl_checkpoints (snd (run_with_failure_injection example_lib example_transforms
            (store_at ''f.csv:1'') ''run-5'' 3 ''csv'' (three_rows, None))) CSV
       = Some (checkpoint_at ''f.csv:1'')"
proof -
  have h: "healthy (store_at ''f.csv:1'')"
    by (simp add: healthy_def store_at_def empty_store_def)
  have cp: "etl_checkpoints (store_at ''f.csv:1'') CSV = Some (checkpoint_at ''f.csv:1'')"
    by (simp add: store_at_def)
  let ?out = "run example_lib csv_extractor (store_at ''f.csv:1'') ''run-4''
         ([csv_row 2 ''b'', csv_row 3 ''c''], Some (Exn ExtractionError ''file unreadable''))"
  let ?inj = "run_with_failure_injection example_lib example_transforms (store_at ''f.csv:1'')
            ''run-5'' 3 ''csv'' (three_rows, None)"
  have o: "?out = (fst ?out, fst (snd ?out), snd (snd ?out))" by simp
  have i: "(1::int) \<le> 3 \<and> 3 \<le> int (length three_rows) \<and> ?inj = (fst ?inj, snd ?inj)"
    by (simp add: three_rows_def)
  have n3: "str_int 3 = ''3''" by (simp add: str_int_eval)
  from mp[OF conjunct1[OF run_failure_keeps_checkpoint[OF h]] o]
       mp[OF conjunct2[OF run_failure_keeps_checkpoint[OF h]] i] h cp n3
  show ?thesis by simp
qed

text \<open>
  Claim C10. When the extraction sequence completes and the run loaded no record (the
  loaded counter is where it was: the sequence was empty, or every record was skipped
  or failed), \<open>run\<close> leaves the checkpoint table exactly as it found it, whatever the
  store does and whatever status the run ends with.
\<close>

theorem run_without_load_keeps_checkpoint:
  assumes "run lib ex w uuid (raws, None) = (result, ex', w')"
      and "records_loaded (stats ex') = records_loaded (stats ex)"
  shows "etl_checkpoints w' = etl_checkpoints w"
proof -
  let ?st = "source_type_of (extractor_cls ex)"
  obtain gc w1 where g: "get_checkpoint w ?st = (gc, w1)"
    by (cases "get_checkpoint w ?st") auto
  have c1: "etl_checkpoints w1 = etl_checkpoints w"
    using frame_get_checkpoint[of w ?st] g by (simp add: frame_def)
  show ?thesis
  proof (cases gc)
    case (Inl e)
    then show ?thesis using assms(1) g c1 by (simp add: run_def)
  next
    case (Inr checkpoint)
    obtain sr w2 where s: "start_run w1 ?st
        (Some [(''checkpoint'', checkpoint_info lib checkpoint)]) uuid = (sr, w2)"
      by (cases "start_run w1 ?st (Some [(''checkpoint'', checkpoint_info lib checkpoint)]) uuid") auto
    have c2: "etl_checkpoints w2 = etl_checkpoints w"
      using checkpoints_start_run[of w1 ?st "Some [(''checkpoint'', checkpoint_info lib checkpoint)]" uuid]
        s c1 by simp
    show ?thesis
    proof (cases sr)
      case (Inl e)
      then show ?thesis using assms(1) g Inr s c2 by (simp add: run_def)
    next
      case (Inr r)
      obtain ex1 w3 last_id where
        f: "foldl (process_record lib) (ex, w2, None) raws = (ex1, w3, last_id)"
        by (cases "foldl (process_record lib) (ex, w2, None) raws") auto
      have c3: "etl_checkpoints w3 = etl_checkpoints w"
        using frame_process_records[of w2 lib ex None raws] f c2 by (simp add: frame_def)
      have inv: "records_loaded (stats ex1) = records_loaded (stats ex) \<longrightarrow> last_id = None"
        using process_records_loaded[OF f] by simp
      have exs: "ex' = ex1"
        using assms(1) g \<open>gc = Inr checkpoint\<close> s Inr f
        by (auto simp add: run_def fail_run_def Let_def split: prod.splits option.splits sum.splits)
      then have none: "last_id = None" using inv assms(2) by simp
      have wc: "write_checkpoint ex1 w3 last_id = (None, w3)"
        by (simp add: write_checkpoint_def none)
      let ?fs = "if records_failed (stats ex1) = 0 then SUCCESS else PARTIAL"
      have "w' = snd (complete_run lib w3 r ?fs (stats ex1) None
                  (Some [(''last_source_id'', PNone)]) None)"
        using assms(1) g \<open>gc = Inr checkpoint\<close> s Inr f wc none
        by (auto simp add: run_def Let_def split: prod.splits sum.splits)
      then show ?thesis using checkpoints_complete_run c3 by simp
    qed
  qed
qed

text \<open>
  A checkpoint at \<open>f.csv:9\<close> and two rows before it: both are skipped, the run ends
  with the status \<open>success\<close>, and the checkpoint, with its \<open>last_processed_at\<close>, is
  the one stored before.
\<close>

lemma skipping_run_counters:
  "stats (fst (snd skipping_run)) =
     \<lparr> records_extracted = 0, records_transformed = 0, records_loaded = 0,
       records_skipped = 2, records_failed = 0 \<rparr>"
  by (simp add: skipping_run_def run_eval)

lemma skipping_run_status:
  "map_option status (etl_runs (snd (snd skipping_run)) ''run-2'') = Some SUCCESS"
  by (simp add: skipping_run_def run_eval)

theorem run_without_load_keeps_checkpoint_witness:
  "records_loaded (stats (fst (snd skipping_run))) = records_loaded (stats csv_extractor)
   \<and> map_option status (etl_runs (snd (snd skipping_run)) ''run-2'') = Some SUCCESS
   \<and> etl_checkpoints (snd (snd skipping_run)) CSV = Some (checkpoint_at ''f.csv:9'')
   \<and> map_option last_processed_at (etl_checkpoints (snd (snd skipping_run)) CSV) = Some (Some 5)"
proof -
  have r: "run example_lib csv_extractor (store_at ''f.csv:9'') ''run-2''
       ([csv_row 1 ''a'', csv_row 2 ''b''], None)
      = (fst skipping_run, fst (snd skipping_run), snd (snd skipping_run))"
    by (simp add: skipping_run_def)
  have l: "records_loaded (stats (fst (snd skipping_run))) = records_loaded (stats csv_extractor)"
    by (simp add: skipping_run_counters csv_extractor_def extractor_init_def)
  have cp: "etl_checkpoints (store_at ''f.csv:9'') CSV = Some (checkpoint_at ''f.csv:9'')"
    by (simp add: store_at_def)
  from run_without_load_keeps_checkpoint[OF r l] l cp skipping_run_status
  show ?thesis by (simp add: checkpoint_at_def)
qed

section \<open>Idempotence of the dual upsert\<close>

lemma source_id_stable:
  assumes "same_day lib ex w" "clock w' = clock w"
  shows "fst (get_source_id lib ex w' raw) = source_id_at_start lib ex w raw"
proof -
  have "extractor_cls ex = APIExtractor \<or> extractor_cls ex = CoinGeckoExtractor
        \<Longrightarrow> strftime_ymd lib (clock w (ticks w')) = strftime_ymd lib (clock w 0)"
    using assms(1) by (auto simp add: same_day_def)
  then show ?thesis using assms(2)
    by (auto simp add: get_source_id_def source_id_at_start_def utcnow_def
        split: extractor_class.splits)
qed

lemma map_of_find_raw:
  "map_option raw_pk (find (\<lambda>r. raw_source_id r = sid) rows)
     = map_of (map (\<lambda>r. (raw_source_id r, raw_pk r)) rows) sid"
  by (induction rows) auto

lemma raw_index_update:
  "map (\<lambda>r. (raw_source_id r, raw_pk r))
     (map (\<lambda>r. if raw_source_id r = sid
                then r\<lparr>raw_payload := p, raw_checksum := c, ingested_at := t\<rparr> else r) rows)
   = map (\<lambda>r. (raw_source_id r, raw_pk r)) rows"
  by (induction rows) auto

text \<open>The raw upsert in terms of the index: the key it returns and the index it leaves.\<close>

lemma upsert_raw_index:
  assumes "upsert_raw w tbl new_row t = (pk, w')"
  shows "raw_index w' tbl =
           (case map_of (raw_index w tbl) (raw_source_id new_row) of
              Some p \<Rightarrow> raw_index w tbl
            | None \<Rightarrow> raw_index w tbl @ [(raw_source_id new_row, raw_seq w tbl)])"
    and "map_of (raw_index w' tbl) (raw_source_id new_row) = Some pk"
    and "unified_data w' = unified_data w"
    and "fault_plan w' = fault_plan w" and "clock w' = clock w" and "ticks w' = ticks w"
proof -
  let ?sid = "raw_source_id new_row"
  have m: "map_of (raw_index w tbl) ?sid
           = map_option raw_pk (find (\<lambda>r. raw_source_id r = ?sid) (raw_data w tbl))"
    by (simp add: raw_index_def map_of_find_raw)
  show "raw_index w' tbl =
           (case map_of (raw_index w tbl) ?sid of
              Some p \<Rightarrow> raw_index w tbl
            | None \<Rightarrow> raw_index w tbl @ [(?sid, raw_seq w tbl)])"
    using assms unfolding m
    by (auto simp add: upsert_raw_def raw_index_def raw_index_update split: option.splits)
  show "map_of (raw_index w' tbl) ?sid = Some pk"
  proof (cases "find (\<lambda>r. raw_source_id r = ?sid) (raw_data w tbl)")
    case None
    then have n: "map_of (raw_index w tbl) ?sid = None" using m by simp
    have "w' = w\<lparr>raw_data := (raw_data w)(tbl :=
                raw_data w tbl @ [new_row\<lparr>raw_pk := raw_seq w tbl\<rparr>]),
             raw_seq := (raw_seq w)(tbl := raw_seq w tbl + 1)\<rparr>" and "pk = raw_seq w tbl"
      using assms None by (auto simp add: upsert_raw_def)
    then have "raw_index w' tbl = raw_index w tbl @ [(?sid, pk)]"
      by (simp add: raw_index_def)
    then show ?thesis using n by (simp add: map_add_def)
  next
    case (Some r)
    then have n: "map_of (raw_index w tbl) ?sid = Some (raw_pk r)" using m by simp
    have "w' = w\<lparr>raw_data := (raw_data w)(tbl :=
                map (\<lambda>r. if raw_source_id r = ?sid
                          then r\<lparr>raw_payload := raw_payload new_row,
                                 raw_checksum := raw_checksum new_row,
                                 ingested_at := t\<rparr>
                          else r)
                    (raw_data w tbl))\<rparr>" and "pk = raw_pk r"
      using assms Some by (auto simp add: upsert_raw_def)
    then have "raw_index w' tbl = raw_index w tbl"
      by (simp add: raw_index_def raw_index_update)
    then show ?thesis using n \<open>pk = raw_pk r\<close> by simp
  qed
  show "unified_data w' = unified_data w" "fault_plan w' = fault_plan w" "clock w' = clock w"
    "ticks w' = ticks w"
    using assms by (auto simp add: upsert_raw_def split: option.splits)
qed

lemma unified_keys_update:
  "map unified_key
     (map (\<lambda>u. if unified_key u = k
                then u\<lparr>unified_raw_id := i, updated_at := t, unified_fields := f\<rparr> else u) rows)
   = map unified_key rows"
  by (induction rows) (auto simp add: unified_key_def)

lemma find_unified_None:
  "(find (\<lambda>u. unified_key u = k) rows = None) = (k \<notin> set (map unified_key rows))"
  by (induction rows) auto

text \<open>The unified upsert in terms of the keys.\<close>

lemma upsert_unified_keys:
  assumes "upsert_unified w new_row t = (pk, w')"
  shows "map unified_key (unified_data w') =
           (if unified_key new_row \<in> set (map unified_key (unified_data w))
            then map unified_key (unified_data w)
            else map unified_key (unified_data w) @ [unified_key new_row])"
    and "raw_data w' = raw_data w"
    and "fault_plan w' = fault_plan w" and "clock w' = clock w"
proof -
  show "map unified_key (unified_data w') =
           (if unified_key new_row \<in> set (map unified_key (unified_data w))
            then map unified_key (unified_data w)
            else map unified_key (unified_data w) @ [unified_key new_row])"
  proof (cases "find (\<lambda>u. unified_key u = unified_key new_row) (unified_data w)")
    case None
    then have i: "unified_key new_row \<notin> set (map unified_key (unified_data w))"
      using find_unified_None[of "unified_key new_row" "unified_data w"] by simp
    have "w' = w\<lparr>unified_data := unified_data w @ [new_row\<lparr>unified_pk := unified_seq w\<rparr>],
             unified_seq := unified_seq w + 1\<rparr>"
      using assms None by (auto simp add: upsert_unified_def)
    then have "map unified_key (unified_data w') = map unified_key (unified_data w) @ [unified_key new_row]"
      by (simp add: unified_key_def)
    then show ?thesis using i by simp
  next
    case (Some u)
    then have i: "unified_key new_row \<in> set (map unified_key (unified_data w))"
      using find_unified_None[of "unified_key new_row" "unified_data w"] by simp
    have "w' = w\<lparr>unified_data :=
                map (\<lambda>u. if unified_key u = unified_key new_row
                          then u\<lparr>unified_raw_id := unified_raw_id new_row,
                                 updated_at := t,
                                 unified_fields := unified_fields new_row\<rparr>
                          else u)
                    (unified_data w)\<rparr>"
      using assms Some by (auto simp add: upsert_unified_def)
    then have "map unified_key (unified_data w') = map unified_key (unified_data w)"
      by (simp add: unified_key_def)
    then show ?thesis using i by simp
  qed
  show "raw_data w' = raw_data w" "fault_plan w' = fault_plan w" "clock w' = clock w"
    using assms by (auto simp add: upsert_unified_def split: option.splits)
qed


text \<open>The clock readings of \<open>get_source_id\<close>: one for the two API classes, none otherwise.\<close>

lemma get_source_id_world:
  "\<exists>n. snd (get_source_id lib ex w raw) = w\<lparr>ticks := n\<rparr>
      \<and> n = ticks w + (if extractor_cls ex = APIExtractor
                          \<or> extractor_cls ex = CoinGeckoExtractor then 1 else 0)"
  by (cases "extractor_cls ex") (simp_all add: get_source_id_def utcnow_def)

lemma source_id_at_start_clock:
  "clock w' = clock w \<Longrightarrow> source_id_at_start lib ex w' raw = source_id_at_start lib ex w raw"
  by (simp add: source_id_at_start_def get_source_id_def utcnow_def split: extractor_class.splits)

lemma same_day_clock: "clock w' = clock w \<Longrightarrow> same_day lib ex w' = same_day lib ex w"
  by (simp add: same_day_def)

lemma healthy_plan: "fault_plan w' = fault_plan w \<Longrightarrow> healthy w' = healthy w"
  by (simp add: healthy_def)

text \<open>\<open>load_raw\<close> on a store that does not fail.\<close>

lemma load_raw_healthy:
  assumes h: "healthy w" and d: "same_day lib ex w"
  shows "\<exists>pk w1. load_raw lib ex w raw = (Inr pk, w1)
      \<and> raw_index w1 (raw_table_of (extractor_cls ex)) =
          (case map_of (raw_index w (raw_table_of (extractor_cls ex)))
                  (source_id_at_start lib ex w raw) of
             Some p \<Rightarrow> raw_index w (raw_table_of (extractor_cls ex))
           | None \<Rightarrow> raw_index w (raw_table_of (extractor_cls ex))
                      @ [(source_id_at_start lib ex w raw,
                          raw_seq w (raw_table_of (extractor_cls ex)))])
      \<and> map_of (raw_index w1 (raw_table_of (extractor_cls ex)))
           (source_id_at_start lib ex w raw) = Some pk
      \<and> unified_data w1 = unified_data w
      \<and> fault_plan w1 = fault_plan w \<and> clock w1 = clock w
      \<and> ticks w1 = ticks w + (if extractor_cls ex = APIExtractor
                                   \<or> extractor_cls ex = CoinGeckoExtractor then 3 else 2)"
proof -
  let ?tbl = "raw_table_of (extractor_cls ex)"
  let ?sid = "source_id_at_start lib ex w raw"
  obtain n where wa: "snd (get_source_id lib ex w raw) = w\<lparr>ticks := n\<rparr>"
    and n: "n = ticks w + (if extractor_cls ex = APIExtractor
                            \<or> extractor_cls ex = CoinGeckoExtractor then 1 else 0)"
    using get_source_id_world by blast
  have sid: "fst (get_source_id lib ex w raw) = ?sid"
    by (rule source_id_stable[OF d]) simp
  let ?w5 = "w\<lparr>ticks := Suc (Suc n), db_calls := Suc (Suc (db_calls w))\<rparr>"
  let ?row = "\<lparr> raw_pk = 0, raw_source_id = ?sid,
                raw_payload = raw_payload_of ex raw,
                raw_checksum = sha256_json lib raw,
                ingested_at = clock w n,
                raw_columns = raw_columns_of ex raw \<rparr>"
  obtain pk w6 where u: "upsert_raw ?w5 ?tbl ?row (clock w (Suc n)) = (pk, w6)"
    by (cases "upsert_raw ?w5 ?tbl ?row (clock w (Suc n))") auto
  have gs: "get_source_id lib ex w raw = (?sid, w\<lparr>ticks := n\<rparr>)"
    using wa sid by (metis prod.collapse)
  have lr: "load_raw lib ex w raw = (Inr pk, w6)"
    using h u by (simp add: load_raw_def gs utcnow_def db_call_def healthy_def)
  have i5: "raw_index ?w5 ?tbl = raw_index w ?tbl" by (simp add: raw_index_def)
  note facts = upsert_raw_index[OF u]
  have tk: "ticks w6 = ticks w + (if extractor_cls ex = APIExtractor
                                     \<or> extractor_cls ex = CoinGeckoExtractor then 3 else 2)"
    using facts(6) n by simp
  have "raw_index w6 ?tbl =
          (case map_of (raw_index w ?tbl) ?sid of
             Some p \<Rightarrow> raw_index w ?tbl
           | None \<Rightarrow> raw_index w ?tbl @ [(?sid, raw_seq w ?tbl)])
      \<and> map_of (raw_index w6 ?tbl) ?sid = Some pk
      \<and> unified_data w6 = unified_data w
      \<and> fault_plan w6 = fault_plan w \<and> clock w6 = clock w"
    using facts(1-5) i5 by (simp split: option.splits)
  then show ?thesis using lr tk by blast
qed

text \<open>\<open>load_unified\<close> on a store that does not fail.\<close>

lemma load_unified_healthy:
  assumes h: "healthy w"
  shows "\<exists>pk w1. load_unified lib ex w transformed raw_id = (Inr pk, w1)
      \<and> map unified_key (unified_data w1) =
          (if (source_type_of (extractor_cls ex), str_int raw_id)
                \<in> set (map unified_key (unified_data w))
           then map unified_key (unified_data w)
           else map unified_key (unified_data w)
                  @ [(source_type_of (extractor_cls ex), str_int raw_id)])
      \<and> raw_data w1 = raw_data w
      \<and> fault_plan w1 = fault_plan w \<and> clock w1 = clock w"
proof -
  let ?w5 = "w\<lparr>ticks := Suc (Suc (Suc (ticks w))), db_calls := Suc (Suc (db_calls w))\<rparr>"
  let ?row = "\<lparr> unified_pk = 0,
                unified_source_type = source_type_of (extractor_cls ex),
                unified_source_id = str_int raw_id,
                unified_raw_id = raw_id,
                unified_fields = transformed,
                created_at = clock w (Suc (ticks w)),
                updated_at = clock w (Suc (Suc (ticks w))) \<rparr>"
  obtain pk w6 where u: "upsert_unified ?w5 ?row (clock w (ticks w)) = (pk, w6)"
    by (cases "upsert_unified ?w5 ?row (clock w (ticks w))") auto
  have lu: "load_unified lib ex w transformed raw_id = (Inr pk, w6)"
    using h u by (simp add: load_unified_def utcnow_def db_call_def healthy_def)
  have k: "unified_key ?row = (source_type_of (extractor_cls ex), str_int raw_id)"
    by (simp add: unified_key_def)
  note facts = upsert_unified_keys[OF u]
  show ?thesis using lu facts k by simp
qed

text \<open>
  The dual upsert of one record on a store that does not fail: what becomes of the raw
  index of the extractor's table and of the unified keys.
\<close>

lemma dual_upsert_healthy:
  assumes h: "healthy w" and d: "same_day lib ex w"
  shows "\<exists>pk. raw_index (dual_upsert lib ex w raw) (raw_table_of (extractor_cls ex)) =
          (case map_of (raw_index w (raw_table_of (extractor_cls ex)))
                  (source_id_at_start lib ex w raw) of
             Some p \<Rightarrow> raw_index w (raw_table_of (extractor_cls ex))
           | None \<Rightarrow> raw_index w (raw_table_of (extractor_cls ex))
                      @ [(source_id_at_start lib ex w raw,
                          raw_seq w (raw_table_of (extractor_cls ex)))])
      \<and> map_of (raw_index (dual_upsert lib ex w raw) (raw_table_of (extractor_cls ex)))
           (source_id_at_start lib ex w raw) = Some pk
      \<and> map unified_key (unified_data (dual_upsert lib ex w raw)) =
          (case transform ex raw of
             Inl e \<Rightarrow> map unified_key (unified_data w)
           | Inr t \<Rightarrow>
               if (source_type_of (extractor_cls ex), str_int pk)
                    \<in> set (map unified_key (unified_data w))
               then map unified_key (unified_data w)
               else map unified_key (unified_data w)
                      @ [(source_type_of (extractor_cls ex), str_int pk)])
      \<and> fault_plan (dual_upsert lib ex w raw) = fault_plan w
      \<and> clock (dual_upsert lib ex w raw) = clock w"
proof -
  let ?tbl = "raw_table_of (extractor_cls ex)"
  obtain pk w1 where lr: "load_raw lib ex w raw = (Inr pk, w1)"
    and idx: "raw_index w1 ?tbl =
          (case map_of (raw_index w ?tbl) (source_id_at_start lib ex w raw) of
             Some p \<Rightarrow> raw_index w ?tbl
           | None \<Rightarrow> raw_index w ?tbl @ [(source_id_at_start lib ex w raw, raw_seq w ?tbl)])"
    and mp: "map_of (raw_index w1 ?tbl) (source_id_at_start lib ex w raw) = Some pk"
    and ud: "unified_data w1 = unified_data w"
    and fp: "fault_plan w1 = fault_plan w" and ck: "clock w1 = clock w"
    using load_raw_healthy[OF h d, of raw] by blast
  have h1: "healthy w1" using healthy_plan[OF fp] h by simp
  show ?thesis
  proof (cases "transform ex raw")
    case (Inl e)
    then have "dual_upsert lib ex w raw = w1" by (simp add: dual_upsert_def lr)
    then show ?thesis using idx mp ud fp ck Inl by auto
  next
    case (Inr t)
    obtain uk w2 where lu: "load_unified lib ex w1 t pk = (Inr uk, w2)"
      and keys: "map unified_key (unified_data w2) =
          (if (source_type_of (extractor_cls ex), str_int pk)
                \<in> set (map unified_key (unified_data w1))
           then map unified_key (unified_data w1)
           else map unified_key (unified_data w1)
                  @ [(source_type_of (extractor_cls ex), str_int pk)])"
      and rd: "raw_data w2 = raw_data w1"
      and fp2: "fault_plan w2 = fault_plan w1" and ck2: "clock w2 = clock w1"
      using load_unified_healthy[OF h1, of lib ex t pk] by blast
    have du: "dual_upsert lib ex w raw = w2" by (simp add: dual_upsert_def lr Inr lu)
    have i2: "raw_index w2 ?tbl = raw_index w1 ?tbl" using rd by (simp add: raw_index_def)
    show ?thesis
      unfolding du using idx mp keys ud fp ck fp2 ck2 i2 Inr by auto
  qed
qed


lemma map_of_snoc:
  "map_of (xs @ [(k, v)]) x = (case map_of xs x of Some y \<Rightarrow> Some y
                               | None \<Rightarrow> if x = k then Some v else None)"
  by (simp add: map_add_def split: option.splits)

text \<open>After its dual upsert a record is settled, and a settled record stays settled.\<close>

lemma dual_upsert_settles:
  assumes h: "healthy w" and d: "same_day lib ex w"
  shows "settled lib ex (dual_upsert lib ex w raw) raw"
proof -
  obtain pk where
    mp: "map_of (raw_index (dual_upsert lib ex w raw) (raw_table_of (extractor_cls ex)))
           (source_id_at_start lib ex w raw) = Some pk"
    and keys: "map unified_key (unified_data (dual_upsert lib ex w raw)) =
          (case transform ex raw of
             Inl e \<Rightarrow> map unified_key (unified_data w)
           | Inr t \<Rightarrow>
               if (source_type_of (extractor_cls ex), str_int pk)
                    \<in> set (map unified_key (unified_data w))
               then map unified_key (unified_data w)
               else map unified_key (unified_data w)
                      @ [(source_type_of (extractor_cls ex), str_int pk)])"
    and ck: "clock (dual_upsert lib ex w raw) = clock w"
    using dual_upsert_healthy[OF h d, of raw] by blast
  have sid: "source_id_at_start lib ex (dual_upsert lib ex w raw) raw
             = source_id_at_start lib ex w raw"
    by (rule source_id_at_start_clock[OF ck])
  show ?thesis
    unfolding settled_def sid mp using keys
    by (auto split: sum.splits)
qed

lemma dual_upsert_keeps_settled:
  assumes h: "healthy w" and d: "same_day lib ex w"
      and s: "settled lib ex w other"
  shows "settled lib ex (dual_upsert lib ex w raw) other"
proof -
  let ?tbl = "raw_table_of (extractor_cls ex)"
  let ?w' = "dual_upsert lib ex w raw"
  obtain pk where
    idx: "raw_index ?w' ?tbl =
          (case map_of (raw_index w ?tbl) (source_id_at_start lib ex w raw) of
             Some p \<Rightarrow> raw_index w ?tbl
           | None \<Rightarrow> raw_index w ?tbl @ [(source_id_at_start lib ex w raw, raw_seq w ?tbl)])"
    and keys: "map unified_key (unified_data ?w') =
          (case transform ex raw of
             Inl e \<Rightarrow> map unified_key (unified_data w)
           | Inr t \<Rightarrow>
               if (source_type_of (extractor_cls ex), str_int pk)
                    \<in> set (map unified_key (unified_data w))
               then map unified_key (unified_data w)
               else map unified_key (unified_data w)
                      @ [(source_type_of (extractor_cls ex), str_int pk)])"
    and ck: "clock ?w' = clock w"
    using dual_upsert_healthy[OF h d, of raw] by blast
  have sid: "source_id_at_start lib ex ?w' other = source_id_at_start lib ex w other"
    by (rule source_id_at_start_clock[OF ck])
  obtain p where p: "map_of (raw_index w ?tbl) (source_id_at_start lib ex w other) = Some p"
    using s by (auto simp add: settled_def split: option.splits)
  have p': "map_of (raw_index ?w' ?tbl) (source_id_at_start lib ex w other) = Some p"
    unfolding idx using p by (simp add: map_of_snoc split: option.splits)
  have sub: "set (map unified_key (unified_data w)) \<subseteq> set (map unified_key (unified_data ?w'))"
    unfolding keys by (auto split: sum.splits)
  show ?thesis
    using s sub unfolding settled_def sid p p' by (auto split: sum.splits)
qed

lemma dual_upsert_settled_noop:
  assumes h: "healthy w" and d: "same_day lib ex w"
      and s: "settled lib ex w raw"
  shows "map unified_key (unified_data (dual_upsert lib ex w raw))
           = map unified_key (unified_data w)"
proof -
  let ?tbl = "raw_table_of (extractor_cls ex)"
  let ?w' = "dual_upsert lib ex w raw"
  obtain pk where
    idx: "raw_index ?w' ?tbl =
          (case map_of (raw_index w ?tbl) (source_id_at_start lib ex w raw) of
             Some p \<Rightarrow> raw_index w ?tbl
           | None \<Rightarrow> raw_index w ?tbl @ [(source_id_at_start lib ex w raw, raw_seq w ?tbl)])"
    and mp: "map_of (raw_index ?w' ?tbl) (source_id_at_start lib ex w raw) = Some pk"
    and keys: "map unified_key (unified_data ?w') =
          (case transform ex raw of
             Inl e \<Rightarrow> map unified_key (unified_data w)
           | Inr t \<Rightarrow>
               if (source_type_of (extractor_cls ex), str_int pk)
                    \<in> set (map unified_key (unified_data w))
               then map unified_key (unified_data w)
               else map unified_key (unified_data w)
                      @ [(source_type_of (extractor_cls ex), str_int pk)])"
    using dual_upsert_healthy[OF h d, of raw] by blast
  obtain p where p: "map_of (raw_index w ?tbl) (source_id_at_start lib ex w raw) = Some p"
    using s by (auto simp add: settled_def split: option.splits)
  have "pk = p" using idx mp p by simp
  then show ?thesis using s p unfolding keys settled_def by (auto split: sum.splits)
qed

lemma dual_upsert_distinct:
  assumes h: "healthy w" and d: "same_day lib ex w"
      and s: "distinct (map unified_key (unified_data w))"
  shows "distinct (map unified_key (unified_data (dual_upsert lib ex w raw)))"
proof -
  obtain pk where
    keys: "map unified_key (unified_data (dual_upsert lib ex w raw)) =
          (case transform ex raw of
             Inl e \<Rightarrow> map unified_key (unified_data w)
           | Inr t \<Rightarrow>
               if (source_type_of (extractor_cls ex), str_int pk)
                    \<in> set (map unified_key (unified_data w))
               then map unified_key (unified_data w)
               else map unified_key (unified_data w)
                      @ [(source_type_of (extractor_cls ex), str_int pk)])"
    using dual_upsert_healthy[OF h d, of raw] by blast
  show ?thesis unfolding keys using s by (auto split: sum.splits)
qed

lemma dual_upsert_oracles:
  assumes h: "healthy w" and d: "same_day lib ex w"
  shows "healthy (dual_upsert lib ex w raw)" and "same_day lib ex (dual_upsert lib ex w raw)"
proof -
  have "fault_plan (dual_upsert lib ex w raw) = fault_plan w"
    and ck: "clock (dual_upsert lib ex w raw) = clock w"
    using dual_upsert_healthy[OF h d, of raw] by blast+
  then show "healthy (dual_upsert lib ex w raw)" using h healthy_plan by blast
  show "same_day lib ex (dual_upsert lib ex w raw)" using d same_day_clock[OF ck] by simp
qed

text \<open>The same over a list of records.\<close>

lemma upsert_all_oracles:
  assumes "healthy w" "same_day lib ex w"
  shows "healthy (upsert_all lib ex w raws) \<and> same_day lib ex (upsert_all lib ex w raws)"
  using assms
proof (induction raws arbitrary: w)
  case Nil
  then show ?case by (simp add: upsert_all_def)
next
  case (Cons raw raws)
  have "upsert_all lib ex w (raw # raws) = upsert_all lib ex (dual_upsert lib ex w raw) raws"
    by (simp add: upsert_all_def)
  then show ?case using Cons.IH[OF dual_upsert_oracles[OF Cons.prems]] by simp
qed

lemma upsert_all_keeps_settled:
  assumes "healthy w" "same_day lib ex w" "settled lib ex w other"
  shows "settled lib ex (upsert_all lib ex w raws) other"
  using assms
proof (induction raws arbitrary: w)
  case Nil
  then show ?case by (simp add: upsert_all_def)
next
  case (Cons raw raws)
  have u: "upsert_all lib ex w (raw # raws) = upsert_all lib ex (dual_upsert lib ex w raw) raws"
    by (simp add: upsert_all_def)
  show ?case unfolding u
    by (rule Cons.IH[OF dual_upsert_oracles[OF Cons.prems(1,2)]
          dual_upsert_keeps_settled[OF Cons.prems]])
qed

lemma upsert_all_settles:
  assumes "healthy w" "same_day lib ex w" "raw \<in> set raws"
  shows "settled lib ex (upsert_all lib ex w raws) raw"
  using assms
proof (induction raws arbitrary: w)
  case Nil
  then show ?case by simp
next
  case (Cons r raws)
  have u: "upsert_all lib ex w (r # raws) = upsert_all lib ex (dual_upsert lib ex w r) raws"
    by (simp add: upsert_all_def)
  note o = dual_upsert_oracles[OF Cons.prems(1,2), of r]
  show ?case
  proof (cases "raw = r")
    case True
    show ?thesis unfolding u True
      by (rule upsert_all_keeps_settled[OF o dual_upsert_settles[OF Cons.prems(1,2)]])
  next
    case False
    then have "raw \<in> set raws" using Cons.prems(3) by simp
    then show ?thesis unfolding u by (rule Cons.IH[OF o])
  qed
qed

lemma upsert_all_settled_noop:
  assumes "healthy w" "same_day lib ex w" "\<forall>raw \<in> set raws. settled lib ex w raw"
  shows "map unified_key (unified_data (upsert_all lib ex w raws))
           = map unified_key (unified_data w)"
  using assms
proof (induction raws arbitrary: w)
  case Nil
  then show ?case by (simp add: upsert_all_def)
next
  case (Cons r raws)
  have u: "upsert_all lib ex w (r # raws) = upsert_all lib ex (dual_upsert lib ex w r) raws"
    by (simp add: upsert_all_def)
  note o = dual_upsert_oracles[OF Cons.prems(1,2), of r]
  have rest: "\<forall>raw \<in> set raws. settled lib ex (dual_upsert lib ex w r) raw"
    using Cons.prems dual_upsert_keeps_settled by simp
  have "map unified_key (unified_data (upsert_all lib ex (dual_upsert lib ex w r) raws))
        = map unified_key (unified_data (dual_upsert lib ex w r))"
    by (rule Cons.IH[OF o rest])
  also have "\<dots> = map unified_key (unified_data w)"
    by (rule dual_upsert_settled_noop) (use Cons.prems in simp_all)
  finally show ?case unfolding u .
qed

lemma upsert_all_distinct:
  assumes "healthy w" "same_day lib ex w" "distinct (map unified_key (unified_data w))"
  shows "distinct (map unified_key (unified_data (upsert_all lib ex w raws)))"
  using assms
proof (induction raws arbitrary: w)
  case Nil
  then show ?case by (simp add: upsert_all_def)
next
  case (Cons r raws)
  have u: "upsert_all lib ex w (r # raws) = upsert_all lib ex (dual_upsert lib ex w r) raws"
    by (simp add: upsert_all_def)
  show ?case unfolding u
    by (rule Cons.IH[OF dual_upsert_oracles[OF Cons.prems(1,2)] dual_upsert_distinct[OF Cons.prems]])
qed

text \<open>
  The conflict branch of the unified upsert: a row with the key of the new row is
  there, so no row is added, and that row gets the new raw id, time and fields.
\<close>

lemma upsert_unified_existing:
  assumes "unified_key new_row \<in> set (map unified_key (unified_data w))"
  shows "unified_data (snd (upsert_unified w new_row t)) =
           map (\<lambda>u. if unified_key u = unified_key new_row
                     then u\<lparr>unified_raw_id := unified_raw_id new_row,
                            updated_at := t,
                            unified_fields := unified_fields new_row\<rparr>
                     else u)
               (unified_data w)"
proof (cases "find (\<lambda>u. unified_key u = unified_key new_row) (unified_data w)")
  case None
  then show ?thesis
    using assms find_unified_None[of "unified_key new_row" "unified_data w"] by simp
next
  case (Some u)
  then show ?thesis by (simp add: upsert_unified_def)
qed

text \<open>
  The dual upsert of a record that is settled and whose transform succeeds: its
  unified row is replaced. The time is the first reading of \<open>load_unified\<close>, after the
  readings of \<open>load_raw\<close>.
\<close>

lemma dual_upsert_replaces:
  assumes h: "healthy w" and d: "same_day lib ex w"
      and s: "settled lib ex w raw" and t: "transform ex raw = Inr t"
  shows "\<exists>pk. map_of (raw_index w (raw_table_of (extractor_cls ex)))
                 (source_id_at_start lib ex w raw) = Some pk
      \<and> unified_data (dual_upsert lib ex w raw) =
          map (\<lambda>u. if unified_key u = (source_type_of (extractor_cls ex), str_int pk)
                    then u\<lparr>unified_raw_id := pk,
                           updated_at := clock w (ticks w
                             + (if extractor_cls ex = APIExtractor
                                   \<or> extractor_cls ex = CoinGeckoExtractor then 3 else 2)),
                           unified_fields := t\<rparr>
                    else u)
              (unified_data w)"
proof -
  let ?tbl = "raw_table_of (extractor_cls ex)"
  let ?sid = "source_id_at_start lib ex w raw"
  let ?k = "if extractor_cls ex = APIExtractor \<or> extractor_cls ex = CoinGeckoExtractor
            then 3 else (2::nat)"
  obtain pk w1 where lr: "load_raw lib ex w raw = (Inr pk, w1)"
    and idx: "raw_index w1 ?tbl =
          (case map_of (raw_index w ?tbl) ?sid of
             Some p \<Rightarrow> raw_index w ?tbl
           | None \<Rightarrow> raw_index w ?tbl @ [(?sid, raw_seq w ?tbl)])"
    and mp: "map_of (raw_index w1 ?tbl) ?sid = Some pk"
    and ud: "unified_data w1 = unified_data w"
    and fp: "fault_plan w1 = fault_plan w" and ck: "clock w1 = clock w"
    and tk: "ticks w1 = ticks w + ?k"
    using load_raw_healthy[OF h d, of raw] by blast
  obtain p where p: "map_of (raw_index w ?tbl) ?sid = Some p"
    and key: "(source_type_of (extractor_cls ex), str_int p)
                \<in> set (map unified_key (unified_data w))"
    using s t by (auto simp add: settled_def split: option.splits)
  have pk: "pk = p" using idx mp p by simp
  have h1: "healthy w1" using healthy_plan[OF fp] h by simp
  let ?w5 = "w1\<lparr>ticks := Suc (Suc (Suc (ticks w1))), db_calls := Suc (Suc (db_calls w1))\<rparr>"
  let ?row = "\<lparr> unified_pk = 0,
                unified_source_type = source_type_of (extractor_cls ex),
                unified_source_id = str_int pk,
                unified_raw_id = pk,
                unified_fields = t,
                created_at = clock w1 (Suc (ticks w1)),
                updated_at = clock w1 (Suc (Suc (ticks w1))) \<rparr>"
  have lu: "snd (load_unified lib ex w1 t pk) = snd (upsert_unified ?w5 ?row (clock w1 (ticks w1)))"
    using h1 by (simp add: load_unified_def utcnow_def db_call_def healthy_def split_beta)
  have k: "unified_key ?row = (source_type_of (extractor_cls ex), str_int pk)"
    by (simp add: unified_key_def)
  have mem: "unified_key ?row \<in> set (map unified_key (unified_data ?w5))"
    unfolding k using key pk ud by simp
  have du: "dual_upsert lib ex w raw = snd (load_unified lib ex w1 t pk)"
    by (simp add: dual_upsert_def lr t)
  have "unified_data (dual_upsert lib ex w raw) =
          map (\<lambda>u. if unified_key u = unified_key ?row
                    then u\<lparr>unified_raw_id := unified_raw_id ?row,
                           updated_at := clock w1 (ticks w1),
                           unified_fields := unified_fields ?row\<rparr>
                    else u)
              (unified_data ?w5)"
    unfolding du lu by (rule upsert_unified_existing[OF mem])
  then have "unified_data (dual_upsert lib ex w raw) =
          map (\<lambda>u. if unified_key u = (source_type_of (extractor_cls ex), str_int pk)
                    then u\<lparr>unified_raw_id := pk,
                           updated_at := clock w (ticks w + ?k),
                           unified_fields := t\<rparr>
                    else u)
              (unified_data w)"
    unfolding k by (simp add: ud ck tk)
  then show ?thesis using p pk by simp
qed

text \<open>
  Claim C2, as the code has it. On a store whose calls do not fail, for an extractor
  whose source ids do not depend on the time of the call (the CSV and RSS classes, and
  the two API classes while the clock stays on one UTC date), a second pass of the dual
  upsert over the same records leaves the unified table with the same keys in the same
  rows, hence the same number of rows, as the first pass; and when no two rows shared
  a (source type, source id) pair before, none do after either pass. After the first
  pass every record of the list is settled: its raw row is stored, and so is the
  unified row of that raw row if its transform succeeds. The dual upsert of a settled
  record whose transform succeeds replaces its row and inserts none: the unified table
  is the one before, except that the row with the record's key has the raw id, the
  fields the transform produced and the \<open>updated_at\<close> of this upsert (its primary
  key and \<open>created_at\<close> stay).
\<close>

theorem dual_upsert_idempotent:
  assumes "healthy w" and "same_day lib ex w"
  shows "length (unified_data (upsert_all lib ex (upsert_all lib ex w raws) raws))
           = length (unified_data (upsert_all lib ex w raws))
       \<and> map unified_key (unified_data (upsert_all lib ex (upsert_all lib ex w raws) raws))
           = map unified_key (unified_data (upsert_all lib ex w raws))
       \<and> (distinct (map unified_key (unified_data w))
           \<longrightarrow> distinct (map unified_key (unified_data (upsert_all lib ex w raws)))
             \<and> distinct (map unified_key
                   (unified_data (upsert_all lib ex (upsert_all lib ex w raws) raws))))
       \<and> (\<forall>raw \<in> set raws. settled lib ex (upsert_all lib ex w raws) raw)
       \<and> (settled lib ex w raw \<and> transform ex raw = Inr t
           \<longrightarrow> (\<exists>pk. map_of (raw_index w (raw_table_of (extractor_cls ex)))
                         (source_id_at_start lib ex w raw) = Some pk
                \<and> unified_data (dual_upsert lib ex w raw) =
                    map (\<lambda>u. if unified_key u = (source_type_of (extractor_cls ex), str_int pk)
                              then u\<lparr>unified_raw_id := pk,
                                     updated_at := clock w (ticks w
                                       + (if extractor_cls ex = APIExtractor
                                             \<or> extractor_cls ex = CoinGeckoExtractor
                                          then 3 else 2)),
                                     unified_fields := t\<rparr>
                              else u)
                        (unified_data w)))"
proof -
  let ?w1 = "upsert_all lib ex w raws"
  have o: "healthy ?w1" "same_day lib ex ?w1"
    using upsert_all_oracles[OF assms] by simp_all
  have s: "\<forall>raw \<in> set raws. settled lib ex ?w1 raw"
    using upsert_all_settles[OF assms] by simp
  have keys: "map unified_key (unified_data (upsert_all lib ex ?w1 raws))
              = map unified_key (unified_data ?w1)"
    by (rule upsert_all_settled_noop[OF o s])
  then have len: "length (unified_data (upsert_all lib ex ?w1 raws)) = length (unified_data ?w1)"
    using map_eq_imp_length_eq by blast
  have dist: "distinct (map unified_key (unified_data w))
           \<longrightarrow> distinct (map unified_key (unified_data ?w1))
             \<and> distinct (map unified_key (unified_data (upsert_all lib ex ?w1 raws)))"
    using upsert_all_distinct[OF assms] keys by simp
  have repl: "settled lib ex w raw \<and> transform ex raw = Inr t
           \<longrightarrow> (\<exists>pk. map_of (raw_index w (raw_table_of (extractor_cls ex)))
                         (source_id_at_start lib ex w raw) = Some pk
                \<and> unified_data (dual_upsert lib ex w raw) =
                    map (\<lambda>u. if unified_key u = (source_type_of (extractor_cls ex), str_int pk)
                              then u\<lparr>unified_raw_id := pk,
                                     updated_at := clock w (ticks w
                                       + (if extractor_cls ex = APIExtractor
                                             \<or> extractor_cls ex = CoinGeckoExtractor
                                          then 3 else 2)),
                                     unified_fields := t\<rparr>
                              else u)
                        (unified_data w))"
    using dual_upsert_replaces[OF assms] by blast
  from len keys dist s repl show ?thesis by blast
qed

lemmas upsert_eval = upsert_all_def dual_upsert_def get_source_id_def load_raw_def
  load_unified_def upsert_raw_def upsert_unified_def db_call_def utcnow_def raw_payload_of_def
  raw_columns_of_def unified_key_def dict_get_def api_extractor_def csv_extractor_def
  extractor_init_def empty_store_def before_midnight_def bitcoin_def csv_row_def
  example_lib_def title_of_name_def Let_def str_int_eval

text \<open>
  The API extractor puts the UTC date into the source id. One coin, upserted at
  23:59:59 and again a few seconds later, after midnight: the second pass adds a
  second unified row.
\<close>

theorem dual_upsert_across_midnight_counterexample:
  "length (unified_data (upsert_all example_lib api_extractor before_midnight [bitcoin])) = 1
   \<and> length (unified_data (upsert_all example_lib api_extractor
               (upsert_all example_lib api_extractor before_midnight [bitcoin]) [bitcoin])) = 2
   \<and> map raw_source_id (raw_data (upsert_all example_lib api_extractor
               (upsert_all example_lib api_extractor before_midnight [bitcoin]) [bitcoin])
               RawAPIData)
       = [''coinpaprika:btc-bitcoin:1970-01-01'', ''coinpaprika:btc-bitcoin:1970-01-02'']"
  by (simp add: upsert_eval)

text \<open>
  Two CSV rows, one of them twice in the list: two unified rows after either pass. And
  row 1 of the file upserted again with another name: still one unified row, now with
  the new title.
\<close>

theorem dual_upsert_idempotent_witness:
  "healthy (empty_store 0) \<and> same_day example_lib csv_extractor (empty_store 0)
   \<and> map unified_key (unified_data
        (upsert_all example_lib csv_extractor (empty_store 0)
           [csv_row 1 ''a'', csv_row 2 ''b'', csv_row 1 ''a'']))
       = [(CSV, ''1''), (CSV, ''2'')]
   \<and> length (unified_data
        (upsert_all example_lib csv_extractor
           (upsert_all example_lib csv_extractor (empty_store 0)
              [csv_row 1 ''a'', csv_row 2 ''b'', csv_row 1 ''a''])
           [csv_row 1 ''a'', csv_row 2 ''b'', csv_row 1 ''a''])) = 2
   \<and> settled example_lib csv_extractor
        (upsert_all example_lib csv_extractor (empty_store 0) [csv_row 1 ''a''])
        (csv_row 1 ''z'')
   \<and> map unified_fields (unified_data
        (upsert_all example_lib csv_extractor (empty_store 0) [csv_row 1 ''a'']))
       = [[(''title'', PStr ''a'')]]
   \<and> map unified_fields (unified_data
        (dual_upsert example_lib csv_extractor
           (upsert_all example_lib csv_extractor (empty_store 0) [csv_row 1 ''a''])
           (csv_row 1 ''z'')))
       = [[(''title'', PStr ''z'')]]"
proof -
  have h: "healthy (empty_store 0)" by (simp add: healthy_def empty_store_def)
  have d: "same_day example_lib csv_extractor (empty_store 0)"
    by (simp add: same_day_def csv_extractor_def extractor_init_def)
  have first: "map unified_key (unified_data
        (upsert_all example_lib csv_extractor (empty_store 0)
           [csv_row 1 ''a'', csv_row 2 ''b'', csv_row 1 ''a'']))
       = [(CSV, ''1''), (CSV, ''2'')]"
    by (simp add: upsert_eval)
  then have "length (unified_data
        (upsert_all example_lib csv_extractor (empty_store 0)
           [csv_row 1 ''a'', csv_row 2 ''b'', csv_row 1 ''a''])) = 2"
    using map_eq_imp_length_eq by fastforce
  with conjunct1[OF dual_upsert_idempotent[OF h d,
      of "[csv_row 1 ''a'', csv_row 2 ''b'', csv_row 1 ''a'']"]]
  have twice: "length (unified_data
        (upsert_all example_lib csv_extractor
           (upsert_all example_lib csv_extractor (empty_store 0)
              [csv_row 1 ''a'', csv_row 2 ''b'', csv_row 1 ''a''])
           [csv_row 1 ''a'', csv_row 2 ''b'', csv_row 1 ''a''])) = 2"
    by simp
  let ?w1 = "upsert_all example_lib csv_extractor (empty_store 0) [csv_row 1 ''a'']"
  have o1: "healthy ?w1" "same_day example_lib csv_extractor ?w1"
    using upsert_all_oracles[OF h d] by simp_all
  have st: "settled example_lib csv_extractor ?w1 (csv_row 1 ''z'')"
    by (simp add: settled_def raw_index_def source_id_at_start_def upsert_eval)
  have tr: "transform csv_extractor (csv_row 1 ''z'') = Inr [(''title'', PStr ''z'')]"
    by (simp add: csv_extractor_def extractor_init_def title_of_name_def csv_row_def)
  have before: "map unified_fields (unified_data ?w1) = [[(''title'', PStr ''a'')]]"
    by (simp add: upsert_eval)
  then have one: "length (unified_data ?w1) = 1"
    using map_eq_imp_length_eq by fastforce
  obtain r where r: "unified_data ?w1 = [r]"
    using one by (cases "unified_data ?w1") auto
  have rk: "unified_key r = (CSV, ''1'')"
  proof -
    have "map unified_key (unified_data ?w1) = [(CSV, ''1'')]" by (simp add: upsert_eval)
    then show ?thesis by (simp add: r)
  qed
  have idx: "map_of (raw_index ?w1 (raw_table_of (extractor_cls csv_extractor)))
       (source_id_at_start example_lib csv_extractor ?w1 (csv_row 1 ''z'')) = Some 1"
    by (simp add: raw_index_def source_id_at_start_def upsert_eval)
  have cls: "source_type_of (extractor_cls csv_extractor) = CSV"
    by (simp add: csv_extractor_def extractor_init_def)
  have n1: "str_int 1 = ''1''" by (simp add: str_int_eval)
  from dual_upsert_idempotent[OF o1, of "[]" "csv_row 1 ''z''" "[(''title'', PStr ''z'')]"] st tr
  obtain pk where
    mp: "map_of (raw_index ?w1 (raw_table_of (extractor_cls csv_extractor)))
           (source_id_at_start example_lib csv_extractor ?w1 (csv_row 1 ''z'')) = Some pk"
    and eq: "unified_data (dual_upsert example_lib csv_extractor ?w1 (csv_row 1 ''z'')) =
       map (\<lambda>u. if unified_key u = (source_type_of (extractor_cls csv_extractor), str_int pk)
                 then u\<lparr>unified_raw_id := pk,
                        updated_at := clock ?w1 (ticks ?w1
                          + (if extractor_cls csv_extractor = APIExtractor
                                \<or> extractor_cls csv_extractor = CoinGeckoExtractor
                             then 3 else 2)),
                        unified_fields := [(''title'', PStr ''z'')]\<rparr>
                 else u)
           (unified_data ?w1)"
    by blast
  have pk: "pk = 1" using mp idx by simp
  have after: "map unified_fields (unified_data
        (dual_upsert example_lib csv_extractor ?w1 (csv_row 1 ''z''))) = [[(''title'', PStr ''z'')]]"
    unfolding eq r pk cls n1 by (simp add: rk)
  from h d first twice st before after show ?thesis by simp
qed

end
